theory Spec2Isabelle
  imports Complex_Main
begin

section \<open>Python strings\<close>

text \<open>
  A Python \<open>str\<close> is a sequence of Unicode code points; it is modelled as a list of
  natural numbers, one per code point, so that \<open>len\<close> is \<open>length\<close>. \<open>ustr\<close> reads an
  ASCII literal. Python floats are modelled as real numbers. In the weights of the
  dramatic centre and in the complexity score of a text, whose comparisons meet equal
  or nearly equal values, every operation is rounded as the floats round it (\<open>fl\<close>
  below). Elsewhere sums, products and comparisons are the exact ones, and rounding,
  infinities and NaN are outside the model, except where a NaN is written as \<open>None\<close>.
  Python integers that are list lengths or indices produced by \<open>range\<close> and
  \<open>enumerate\<close> are natural numbers; where the source subtracts from one, the
  subtraction is written over \<open>int\<close>.

  Two tables of the Unicode database are not part of the repository and are parameters
  of the functions that use them: \<open>lower\<close>, the function \<open>str.lower\<close>, and \<open>isword\<close>,
  the class \<open>\w\<close> of the \<open>re\<close> module. \<open>ascii_lower\<close> and \<open>ascii_isword\<close> are
  what they are on ASCII text.
\<close>

type_synonym ustr = "nat list"

definition ustr :: "string \<Rightarrow> ustr" where
  "ustr s = map of_char s"

text \<open>
  \<open>str.isspace\<close> of one code point, which is also the class \<open>\s\<close> of \<open>re\<close> on
  \<open>str\<close> patterns: U+0009..U+000D, U+001C..U+0020, U+0085, U+00A0, U+1680,
  U+2000..U+200A, U+2028, U+2029, U+202F, U+205F, U+3000.
\<close>

definition isspace :: "nat \<Rightarrow> bool" where
  "isspace c \<longleftrightarrow>
     (9 \<le> c \<and> c \<le> 13) \<or> (28 \<le> c \<and> c \<le> 32) \<or> c = 133 \<or> c = 160 \<or> c = 5760
     \<or> (8192 \<le> c \<and> c \<le> 8202) \<or> c = 8232 \<or> c = 8233 \<or> c = 8239 \<or> c = 8287
     \<or> c = 12288"

definition lstrip :: "ustr \<Rightarrow> ustr" where
  "lstrip s = dropWhile isspace s"

definition rstrip :: "ustr \<Rightarrow> ustr" where
  "rstrip s = rev (dropWhile isspace (rev s))"

text \<open>\<open>s.strip()\<close>\<close>

definition strip :: "ustr \<Rightarrow> ustr" where
  "strip s = rstrip (lstrip s)"

text \<open>\<open>s.startswith(p)\<close> and \<open>s.endswith(p)\<close>\<close>

definition startswith :: "ustr \<Rightarrow> ustr \<Rightarrow> bool" where
  "startswith s p \<longleftrightarrow> take (length p) s = p"

definition endswith :: "ustr \<Rightarrow> ustr \<Rightarrow> bool" where
  "endswith s p \<longleftrightarrow> length p \<le> length s \<and> drop (length s - length p) s = p"

text \<open>\<open>p in s\<close> for strings: \<open>p\<close> occurs in \<open>s\<close> as a substring.\<close>

primrec contains :: "ustr \<Rightarrow> ustr \<Rightarrow> bool" where
  "contains p [] \<longleftrightarrow> p = []"
| "contains p (c # cs) \<longleftrightarrow> startswith (c # cs) p \<or> contains p cs"

text \<open>
  \<open>s.count(p)\<close>: the number of non-overlapping occurrences of \<open>p\<close>, found from left to
  right. \<open>count_from p k s\<close> skips the next \<open>k\<close> code points, which belong to the
  occurrence just counted.
\<close>

fun count_from :: "ustr \<Rightarrow> nat \<Rightarrow> ustr \<Rightarrow> nat" where
  "count_from p k [] = 0"
| "count_from p k (c # cs) =
     (if 0 < k then count_from p (k - 1) cs
      else if startswith (c # cs) p then 1 + count_from p (length p - 1) cs
      else count_from p 0 cs)"

definition count_str :: "ustr \<Rightarrow> ustr \<Rightarrow> nat" where
  "count_str s p = (if p = [] then length s + 1 else count_from p 0 s)"

definition ascii_lower :: "ustr \<Rightarrow> ustr" where
  "ascii_lower s = map (\<lambda>c. if 65 \<le> c \<and> c \<le> 90 then c + 32 else c) s"

definition ascii_isword :: "nat \<Rightarrow> bool" where
  "ascii_isword c \<longleftrightarrow>
     (48 \<le> c \<and> c \<le> 57) \<or> (65 \<le> c \<and> c \<le> 90) \<or> c = 95 \<or> (97 \<le> c \<and> c \<le> 122)"

subsection \<open>Lists of floats\<close>

text \<open>
  \<open>np.mean\<close> of a list of floats. The mean of an empty list is NaN (with a warning, not
  an exception); NaN is \<open>None\<close> here.
\<close>

definition np_mean :: "real list \<Rightarrow> real option" where
  "np_mean xs = (if xs = [] then None else Some (sum_list xs / real (length xs)))"

text \<open>
  Python slices of a list with bounds that are not negative: \<open>xs[:b]\<close>, \<open>xs[a:b]\<close>,
  and \<open>xs[-k:]\<close> for a positive \<open>k\<close>. Bounds beyond the end are cut to the length.
\<close>

definition slice_to :: "nat \<Rightarrow> 'a list \<Rightarrow> 'a list" where
  "slice_to b xs = take b xs"

definition slice_between :: "nat \<Rightarrow> nat \<Rightarrow> 'a list \<Rightarrow> 'a list" where
  "slice_between a b xs = drop a (take b xs)"

definition slice_last :: "nat \<Rightarrow> 'a list \<Rightarrow> 'a list" where
  "slice_last k xs = drop (length xs - k) xs"

text \<open>\<open>max(xs)\<close> of a list that is not empty, and \<open>xs.index(x)\<close> of an element of it.\<close>

definition max_list :: "real list \<Rightarrow> real" where
  "max_list xs = foldl max (hd xs) (tl xs)"

definition index_of :: "real list \<Rightarrow> real \<Rightarrow> nat" where
  "index_of xs x = length (takeWhile (\<lambda>y. y \<noteq> x) xs)"

text \<open>
  The exceptions of Python that the modelled functions raise or let through.
\<close>

datatype py_error = IndexError | ValueError | ZeroDivisionError | SystemExit | KeyboardInterrupt

text \<open>
  The position that a Python integer index denotes in a list of length \<open>n\<close>: a negative
  index counts from the end, and an index outside the list raises \<open>IndexError\<close>
  (\<open>None\<close> here).
\<close>

definition py_index :: "int \<Rightarrow> nat \<Rightarrow> nat option" where
  "py_index i n =
     (let j = (if i < 0 then int n + i else i)
      in if 0 \<le> j \<and> j < int n then Some (nat j) else None)"

text \<open>The slice \<open>xs[:m]\<close> for a Python integer \<open>m\<close>.\<close>

definition slice_to_int :: "int \<Rightarrow> 'a list \<Rightarrow> 'a list" where
  "slice_to_int m xs =
     (if 0 \<le> m then take (nat m) xs else take (length xs - nat (- m)) xs)"

text \<open>A waveform is the list of its samples.\<close>

type_synonym audio = "real list"

section \<open>Regular expressions of the source\<close>

text \<open>
  Most patterns of the source are sequences of character classes, each taken once or
  repeated greedily (\<open>*\<close>, \<open>+\<close>, \<open>{2,}\<close>). \<open>match_seq\<close> is the matcher of the
  \<open>re\<close> module on such a sequence, at the start of a string: a repeated class first
  takes the longest run and gives code points back one at a time while the rest of the
  sequence fails. Its result is the length of the match.
\<close>

datatype quant = Once | AtLeast nat

type_synonym item = "(nat \<Rightarrow> bool) \<times> quant"

text \<open>\<open>try_down f lo d\<close> is the first success among \<open>f (lo + d)\<close>, \ldots, \<open>f lo\<close>.\<close>

primrec try_down :: "(nat \<Rightarrow> 'a option) \<Rightarrow> nat \<Rightarrow> nat \<Rightarrow> 'a option" where
  "try_down f lo 0 = f lo"
| "try_down f lo (Suc d) =
     (case f (lo + Suc d) of Some r \<Rightarrow> Some r | None \<Rightarrow> try_down f lo d)"

fun match_seq :: "item list \<Rightarrow> ustr \<Rightarrow> nat option" where
  "match_seq [] s = Some 0"
| "match_seq ((cls, Once) # items) s =
     (case s of
        [] \<Rightarrow> None
      | c # cs \<Rightarrow> if cls c then map_option Suc (match_seq items cs) else None)"
| "match_seq ((cls, AtLeast n) # items) s =
     (let run = length (takeWhile cls s)
      in if run < n then None
         else try_down (\<lambda>k. map_option (\<lambda>l. k + l) (match_seq items (drop k s))) n (run - n))"

text \<open>
  \<open>re.search\<close>: the leftmost match, as the pair of its start and its length.
\<close>

fun search_from :: "item list \<Rightarrow> nat \<Rightarrow> ustr \<Rightarrow> (nat \<times> nat) option" where
  "search_from items i [] = map_option (\<lambda>l. (i, l)) (match_seq items [])"
| "search_from items i (c # cs) =
     (case match_seq items (c # cs) of
        Some l \<Rightarrow> Some (i, l)
      | None \<Rightarrow> search_from items (Suc i) cs)"

definition re_search :: "item list \<Rightarrow> ustr \<Rightarrow> (nat \<times> nat) option" where
  "re_search items s = search_from items 0 s"

text \<open>
  The number of matches that \<open>re.finditer\<close> and \<open>re.findall\<close> find: the matches do not
  overlap and are found from left to right. All patterns counted in the source match at
  least one code point; \<open>count_matches items k s\<close> skips the next \<open>k\<close> code points,
  which belong to the match just counted.
\<close>

fun count_matches :: "item list \<Rightarrow> nat \<Rightarrow> ustr \<Rightarrow> nat" where
  "count_matches items k [] = 0"
| "count_matches items k (c # cs) =
     (if 0 < k then count_matches items (k - 1) cs
      else case match_seq items (c # cs) of
             Some l \<Rightarrow> 1 + count_matches items (l - 1) cs
           | None \<Rightarrow> count_matches items 0 cs)"

text \<open>
  \<open>re.findall(r'\b\w+\b', s)\<close>: the words of \<open>s\<close>, its maximal runs of word
  characters. \<open>words_from isword w s\<close> carries the word being read, reversed.
\<close>

fun words_from :: "(nat \<Rightarrow> bool) \<Rightarrow> ustr \<Rightarrow> ustr \<Rightarrow> ustr list" where
  "words_from isword w [] = (if w = [] then [] else [rev w])"
| "words_from isword w (c # cs) =
     (if isword c then words_from isword (c # w) cs
      else if w = [] then words_from isword [] cs
      else rev w # words_from isword [] cs)"

definition findall_words :: "(nat \<Rightarrow> bool) \<Rightarrow> ustr \<Rightarrow> ustr list" where
  "findall_words isword s = words_from isword [] s"

text \<open>\<open>s.split()\<close>: the maximal runs of code points that are not white space.\<close>

definition split_whitespace :: "ustr \<Rightarrow> ustr list" where
  "split_whitespace s = words_from (\<lambda>c. \<not> isspace c) [] s"

text \<open>Membership of a code point in the characters of an ASCII literal.\<close>

definition one_of :: "string \<Rightarrow> nat \<Rightarrow> bool" where
  "one_of cs c \<longleftrightarrow> c \<in> set (ustr cs)"

text \<open>
  A matcher gives the length of the match of a pattern at the start of a string, given
  the code point before it (for \<open>\b\<close>). A sequence of classes does not look back.
\<close>

type_synonym matcher = "nat option \<Rightarrow> ustr \<Rightarrow> nat option"

definition seq_matcher :: "item list \<Rightarrow> matcher" where
  "seq_matcher items prev s = match_seq items s"

text \<open>The literal pattern of \<open>str.replace\<close> and \<open>str.split\<close>, which is not empty.\<close>

definition lit_matcher :: "ustr \<Rightarrow> matcher" where
  "lit_matcher p prev s = (if p \<noteq> [] \<and> startswith s p then Some (length p) else None)"

text \<open>
  \<open>re.sub\<close> and \<open>str.replace\<close>: every match, found from left to right without
  overlap, is replaced by \<open>repl\<close> of the matched text. No pattern that the source
  substitutes matches the empty string. \<open>sub_from m repl prev k s\<close> knows the code
  point \<open>prev\<close> before \<open>s\<close> and skips the next \<open>k\<close> code points, the rest of the match
  just replaced.
\<close>

fun sub_from :: "matcher \<Rightarrow> (ustr \<Rightarrow> ustr) \<Rightarrow> nat option \<Rightarrow> nat \<Rightarrow> ustr \<Rightarrow> ustr" where
  "sub_from m repl prev k [] = []"
| "sub_from m repl prev k (c # cs) =
     (if 0 < k then sub_from m repl (Some c) (k - 1) cs
      else case m prev (c # cs) of
             None \<Rightarrow> c # sub_from m repl (Some c) 0 cs
           | Some 0 \<Rightarrow> c # sub_from m repl (Some c) 0 cs
           | Some (Suc l) \<Rightarrow> repl (take (Suc l) (c # cs)) @ sub_from m repl (Some c) l cs)"

definition re_sub :: "matcher \<Rightarrow> (ustr \<Rightarrow> ustr) \<Rightarrow> ustr \<Rightarrow> ustr" where
  "re_sub m repl s = sub_from m repl None 0 s"

definition str_replace :: "ustr \<Rightarrow> ustr \<Rightarrow> ustr \<Rightarrow> ustr" where
  "str_replace s old new = re_sub (lit_matcher old) (\<lambda>_. new) s"

text \<open>
  \<open>re.split\<close> and \<open>str.split\<close> with a separator: the pieces between the matches, empty
  pieces included. \<open>split_from\<close> carries the piece being read, reversed.
\<close>

fun split_from :: "matcher \<Rightarrow> nat option \<Rightarrow> nat \<Rightarrow> ustr \<Rightarrow> ustr \<Rightarrow> ustr list" where
  "split_from m prev k piece [] = [rev piece]"
| "split_from m prev k piece (c # cs) =
     (if 0 < k then split_from m (Some c) (k - 1) piece cs
      else case m prev (c # cs) of
             None \<Rightarrow> split_from m (Some c) 0 (c # piece) cs
           | Some 0 \<Rightarrow> split_from m (Some c) 0 (c # piece) cs
           | Some (Suc l) \<Rightarrow> rev piece # split_from m (Some c) l [] cs)"

definition re_split :: "matcher \<Rightarrow> ustr \<Rightarrow> ustr list" where
  "re_split m s = split_from m None 0 [] s"

definition str_split :: "ustr \<Rightarrow> ustr \<Rightarrow> ustr list" where
  "str_split s sep = re_split (lit_matcher sep) s"

text \<open>
  \<open>\b\<close>: exactly one of the code point before and the code point after is a word
  character; the start and the end of the string count as not a word character.
\<close>

definition word_boundary :: "(nat \<Rightarrow> bool) \<Rightarrow> nat option \<Rightarrow> ustr \<Rightarrow> bool" where
  "word_boundary isword prev s \<longleftrightarrow>
     (case prev of None \<Rightarrow> False | Some c \<Rightarrow> isword c)
       \<noteq> (case s of [] \<Rightarrow> False | c # _ \<Rightarrow> isword c)"

subsection \<open>Floating-point numbers\<close>

text \<open>
  A Python \<open>float\<close> is a binary64 number of IEEE 754. Where a test of the source
  depends on the rounding, the model keeps a float as the real number that it is and
  rounds the exact result of each operation with \<open>fl\<close>: to the nearest number whose
  significand has 53 bits, a tie to the one with the even significand, and below
  \<open>2 powi - 1022\<close> to the nearest multiple of \<open>2 powi - 1074\<close>. A decimal literal of
  the source is rounded in the same way. Results of a magnitude from \<open>2 powi 1024\<close>
  on, which are infinite in Python, have no counterpart.

  \<open>bits n\<close> is the number of binary digits of \<open>n\<close>; \<open>binade x\<close> is the exponent \<open>e\<close>
  with \<open>2 powi e \<le> \<bar>x\<bar> < 2 powi (e + 1)\<close>, for \<open>x\<close> other than 0; \<open>rne\<close> rounds to the
  nearest integer, a tie to the even one.
\<close>

fun bits :: "nat \<Rightarrow> nat" where
  "bits n = (if n = 0 then 0 else Suc (bits (n div 2)))"

definition binade :: "real \<Rightarrow> int" where
  "binade x =
     (if 1 \<le> \<bar>x\<bar> then int (bits (nat \<lfloor>\<bar>x\<bar>\<rfloor>)) - 1
      else - int (bits (nat (\<lceil>1 / \<bar>x\<bar>\<rceil> - 1))))"

definition rne :: "real \<Rightarrow> int" where
  "rne y =
     (let f = \<lfloor>y\<rfloor>; r = y - of_int f
      in if r < 1 / 2 then f else if 1 / 2 < r then f + 1 else if even f then f else f + 1)"

definition fl :: "real \<Rightarrow> real" where
  "fl x =
     (if x = 0 then 0
      else (let e = max (binade x) (- 1022) - 52
            in of_int (rne (x / 2 powi e)) * 2 powi e))"

section \<open>Prosodic architecture engine (prosody\_orchestrator.py)\<close>

subsection \<open>Configuration\<close>

text \<open>The entry \<open>configuracion['arco_global']\<close> of \<open>ArquitecturaVocalMaestra\<close>.\<close>

record arco_global =
  inicio_boost :: real
  desarrollo_peak :: real
  cierre_drop :: real
  transicion_suave :: real

definition configuracion_arco_global :: arco_global where
  "configuracion_arco_global =
     \<lparr> inicio_boost = 0.08, desarrollo_peak = 0.15, cierre_drop = - 0.08,
       transicion_suave = 0.05 \<rparr>"

subsection \<open>Narrative arc\<close>

text \<open>
  The body of the loop of \<open>_generar_arco_narrativo\<close>: the factor of paragraph \<open>i\<close> of
  \<open>N\<close> with the dramatic centre at \<open>centro\<close>. The division \<open>i / centro\<close> is only
  evaluated when \<open>i < centro\<close>, so its divisor is positive.
\<close>

definition arco_factor :: "arco_global \<Rightarrow> nat \<Rightarrow> nat \<Rightarrow> nat \<Rightarrow> real" where
  "arco_factor cfg N centro i =
     (if i < centro then
        1.0 + (real i / real centro) * desarrollo_peak cfg
      else if i = centro then
        1.0 + desarrollo_peak cfg
      else
        (let descenso_restante = int N - int centro - 1 in
         if descenso_restante > 0 then
           (let pos_en_descenso = (real i - real centro) / real_of_int descenso_restante in
            (1.0 + desarrollo_peak cfg) * (1.0 - pos_en_descenso)
              + (1.0 + cierre_drop cfg) * pos_en_descenso)
         else 1.0 + cierre_drop cfg))"

definition generar_arco_narrativo :: "arco_global \<Rightarrow> nat \<Rightarrow> nat \<Rightarrow> real list" where
  "generar_arco_narrativo cfg N centro = map (arco_factor cfg N centro) [0..<N]"

subsection \<open>Pause after a sentence\<close>

text \<open>
  The four results of \<open>_detectar_tipo_transicion\<close>, which the source returns as the
  strings \<open>'contraste'\<close>, \<open>'continuidad'\<close>, \<open>'conclusion_parcial'\<close> and \<open>'normal'\<close>.
\<close>

datatype transicion = Contraste | Continuidad | Conclusion_parcial | Normal

text \<open>
  The indicator lists of \<open>_detectar_tipo_transicion\<close>; the code points 225, 233 and 237
  are the letters a, e and i with an acute accent.
\<close>

definition indicadores_contraste :: "ustr list" where
  "indicadores_contraste =
     [ustr ''sin embargo'', ustr ''pero'', ustr ''no obstante'', ustr ''aunque'']"

definition indicadores_continuidad :: "ustr list" where
  "indicadores_continuidad =
     [ustr ''adem'' @ [225] @ ustr ''s'', ustr ''tambi'' @ [233] @ ustr ''n'',
      ustr ''asimismo'', ustr ''igualmente'']"

definition indicadores_conclusion :: "ustr list" where
  "indicadores_conclusion =
     [ustr ''por tanto'', ustr ''as'' @ [237] @ ustr '' pues'', ustr ''en resumen'']"

definition detectar_tipo_transicion :: "(ustr \<Rightarrow> ustr) \<Rightarrow> ustr \<Rightarrow> ustr \<Rightarrow> transicion" where
  "detectar_tipo_transicion lower frase_actual frase_siguiente =
     (let actual_lower = lower frase_actual;
          siguiente_lower = lower frase_siguiente
      in if list_ex (\<lambda>ind. contains ind siguiente_lower) indicadores_contraste then Contraste
         else if list_ex (\<lambda>ind. contains ind siguiente_lower) indicadores_continuidad
           then Continuidad
         else if list_ex (\<lambda>ind. contains ind actual_lower) indicadores_conclusion
           then Conclusion_parcial
         else Normal)"

text \<open>
  The first block of \<open>_calcular_pausa_transicion\<close>: the base pause that the final
  punctuation mark of the sentence selects.
\<close>

definition pausa_base_puntuacion :: "ustr \<Rightarrow> real" where
  "pausa_base_puntuacion frase =
     (if endswith (strip frase) (ustr ''.'') then 0.8
      else if endswith (strip frase) (ustr ''!'') then 0.6
      else if endswith (strip frase) (ustr ''?'') then 0.5
      else if endswith (strip frase) (ustr '','') then 0.3
      else 0.5)"

text \<open>
  \<open>_calcular_pausa_transicion\<close>. The read \<open>todas_frases[frase_id + 1]\<close> raises
  \<open>IndexError\<close> when the list is too short; \<open>frase_id\<close> is not negative, so the index
  never counts from the end.
\<close>

definition calcular_pausa_transicion ::
  "(ustr \<Rightarrow> ustr) \<Rightarrow> ustr \<Rightarrow> nat \<Rightarrow> nat \<Rightarrow> ustr list \<Rightarrow> bool \<Rightarrow> py_error + real" where
  "calcular_pausa_transicion lower frase frase_id total_frases todas_frases es_ultimo_parrafo =
     (let pausa_base = pausa_base_puntuacion frase;
          ajustada =
            (if int frase_id = int total_frases - 1 then
               (if es_ultimo_parrafo then Inr (pausa_base * 2.0) else Inr (pausa_base * 1.8))
             else if int frase_id < int total_frases - 1 then
               (if frase_id + 1 < length todas_frases then
                  (let siguiente_frase = todas_frases ! (frase_id + 1);
                       transicion = detectar_tipo_transicion lower frase siguiente_frase
                   in case transicion of
                        Contraste \<Rightarrow> Inr (pausa_base * 1.3)
                      | Continuidad \<Rightarrow> Inr (pausa_base * 0.8)
                      | Conclusion_parcial \<Rightarrow> Inr (pausa_base * 1.1)
                      | Normal \<Rightarrow> Inr pausa_base)
                else Inl IndexError)
             else Inr pausa_base)
      in case ajustada of
           Inl e \<Rightarrow> Inl e
         | Inr pausa \<Rightarrow> Inr (min (max pausa 0.2) 3.0))"

subsection \<open>Dramatic centre\<close>

text \<open>
  The dictionary \<open>indicadores_peso\<close> of \<open>_calcular_centro_dramatico\<close>: its five
  lists of indicators, and each list with the weight of its category. The code points
  243 and 237 are the letters o and i with an acute accent.
\<close>

definition giros :: "ustr list" where
  "giros =
     [ustr ''sin embargo'', ustr ''pero'', ustr ''no obstante'', ustr ''aunque'',
      ustr ''mientras que'']"

definition importancia :: "ustr list" where
  "importancia =
     [ustr ''fundamental'', ustr ''crucial'', ustr ''esencial'', ustr ''importante'',
      ustr ''clave'']"

definition conclusiones :: "ustr list" where
  "conclusiones =
     [ustr ''finalmente'', ustr ''por lo tanto'', ustr ''en conclusi'' @ [243] @ ustr ''n'',
      ustr ''as'' @ [237] @ ustr '' pues'']"

definition contraste :: "ustr list" where
  "contraste = [ustr ''diferente'', ustr ''opuesto'', ustr ''contrario'', ustr ''distinto'']"

definition causalidad :: "ustr list" where
  "causalidad =
     [ustr ''porque'', ustr ''debido a'', ustr ''por esta raz'' @ [243] @ ustr ''n'',
      ustr ''consecuentemente'']"

definition indicadores_peso :: "(nat \<times> ustr list) list" where
  "indicadores_peso =
     [(3, giros), (2, importancia), (2, conclusiones), (2, contraste), (1, causalidad)]"

text \<open>
  The inner loops of \<open>_calcular_centro_dramatico\<close>: the weighted number of occurrences
  of the indicators in the paragraph, an integer.
\<close>

definition peso_semantico :: "(ustr \<Rightarrow> ustr) \<Rightarrow> ustr \<Rightarrow> nat" where
  "peso_semantico lower parrafo =
     (let texto_lower = lower parrafo
      in sum_list (map (\<lambda>(w, palabras).
           sum_list (map (\<lambda>pal. count_str texto_lower pal * w) palabras)) indicadores_peso))"

text \<open>
  The weight of the paragraph at index \<open>i\<close> of \<open>n\<close>, a float: the semantic weight,
  an integer that the addition converts to a float, plus the length over 100, times 1.2
  when \<open>i / n\<close> lies between 0.3 and 0.8. Every operation rounds its result, and so
  does every literal. The loop runs only over a list that is not empty, so \<open>n\<close> is
  positive in the division.
\<close>

definition peso_parrafo :: "(ustr \<Rightarrow> ustr) \<Rightarrow> nat \<Rightarrow> nat \<Rightarrow> ustr \<Rightarrow> real" where
  "peso_parrafo lower n i parrafo =
     (let peso = fl (fl (real (peso_semantico lower parrafo))
                     + fl (real (length parrafo) / 100));
          posicion = fl (real i / real n)
      in if fl 0.3 \<le> posicion \<and> posicion \<le> fl 0.8 then fl (peso * fl 1.2)
         else peso)"

text \<open>
  \<open>_calcular_centro_dramatico\<close>; \<open>max\<close> of the empty list raises \<open>ValueError\<close>.
\<close>

definition calcular_centro_dramatico :: "(ustr \<Rightarrow> ustr) \<Rightarrow> ustr list \<Rightarrow> py_error + nat" where
  "calcular_centro_dramatico lower parrafos =
     (let pesos_parrafos =
            map (\<lambda>(i, parrafo). peso_parrafo lower (length parrafos) i parrafo)
              (enumerate 0 parrafos)
      in if pesos_parrafos = [] then Inl ValueError
         else Inr (index_of pesos_parrafos (max_list pesos_parrafos)))"

text \<open>
  Two documents of three paragraphs in which only the second paragraph has a contrast
  connective, \<open>sin embargo\<close>. In the first document the opening paragraph has four
  importance markers; in the second document no other indicator occurs at all and the
  closing paragraph is 333 code points long.
\<close>

definition documento_importancia :: "ustr list" where
  "documento_importancia =
     [ustr ''Es importante, crucial, esencial y fundamental.'',
      ustr ''Sin embargo, no vino nadie.'',
      ustr ''Luego se fue a casa.'']"

definition documento_largo :: "ustr list" where
  "documento_largo =
     [ustr ''Llegaron al alba.'',
      ustr ''Sin embargo, no vino nadie.'',
      concat (replicate 10 (ustr ''El tren sale hoy y vuelve luego. '')) @ ustr ''Ya.'']"

text \<open>A document of three paragraphs in which the second one is the centre.\<close>

definition documento_breve :: "ustr list" where
  "documento_breve =
     [ustr ''Llegaron al alba.'',
      ustr ''Sin embargo, no vino nadie.'',
      ustr ''Luego se fue a casa.'']"

text \<open>
  A document whose second paragraph has \<open>sin embargo\<close> and 72 code points, and whose
  third paragraph has no indicator and 300 code points more, 372.
\<close>

definition documento_frontera :: "ustr list" where
  "documento_frontera =
     [ustr ''Llegaron al alba.'',
      ustr ''Sin embargo, no vino nadie a la casa, y el tren de la tarde no sale hoy.'',
      concat (replicate 11 (ustr ''El tren sale hoy y vuelve luego. '')) @ ustr ''Ya se va.'']"

subsection \<open>Sentence segmentation\<close>

text \<open>
  The pattern \<open>\b(Sr|Sra|Dr|Dra|St|Sto|Sta)\.\s*\<close>: after a word boundary, the
  first alternative that is followed by a full stop, then the full stop and all the white
  space after it.
\<close>

definition abreviaturas :: "ustr list" where
  "abreviaturas =
     [ustr ''Sr'', ustr ''Sra'', ustr ''Dr'', ustr ''Dra'', ustr ''St'', ustr ''Sto'',
      ustr ''Sta'']"

definition abreviatura_matcher :: "(nat \<Rightarrow> bool) \<Rightarrow> matcher" where
  "abreviatura_matcher isword prev s =
     (if word_boundary isword prev s then
        (case find (\<lambda>a. startswith s (a @ ustr ''.'')) abreviaturas of
           None \<Rightarrow> None
         | Some a \<Rightarrow>
             Some (length a + 1 + length (takeWhile isspace (drop (length a + 1) s))))
      else None)"

text \<open>
  The character classes of the other patterns: the opening marks (code points 161 and
  191, the inverted exclamation and question marks) and \<open>[A-Z...]\<close> with the six
  accented capitals (code points 193, 201, 205, 211, 218 and 209).
\<close>

definition apertura :: "nat \<Rightarrow> bool" where
  "apertura c \<longleftrightarrow> c = 161 \<or> c = 191"

definition mayuscula :: "nat \<Rightarrow> bool" where
  "mayuscula c \<longleftrightarrow> (65 \<le> c \<and> c \<le> 90) \<or> c \<in> set [193, 201, 205, 211, 218, 209]"

text \<open>
  The search of \<open>_dividir_frase_simple\<close> for one pattern whose second group is its last
  code point: the start of the leftmost match, and the two parts around the start of the
  second group, stripped.
\<close>

definition buscar_division :: "item list \<Rightarrow> ustr \<Rightarrow> (nat \<times> ustr \<times> ustr) option" where
  "buscar_division patron texto =
     (case re_search patron texto of
        None \<Rightarrow> None
      | Some (start, l) \<Rightarrow>
          (let pos = start + l - 1
           in Some (start, strip (take pos texto), strip (drop pos texto))))"

text \<open>\<open>_dividir_frase_simple\<close>: the four patterns in their order.\<close>

definition dividir_frase_simple :: "ustr \<Rightarrow> ustr list" where
  "dividir_frase_simple texto =
     (let match1 = buscar_division
            [(one_of ''!?'', Once), (isspace, AtLeast 0), (apertura, Once)] texto;
          match2 = buscar_division
            [(one_of ''.!?'', Once), (isspace, AtLeast 0), (apertura, Once)] texto;
          match3 = buscar_division
            [(one_of ''!?'', Once), (isspace, AtLeast 1), (mayuscula, Once)] texto;
          match4 = buscar_division
            [(one_of ''.'', Once), (isspace, AtLeast 1), (mayuscula, Once)] texto;
          r1 = (case match1 of
                  Some (start, parte1, parte2) \<Rightarrow>
                    if parte1 \<noteq> [] \<and> parte2 \<noteq> [] then Some [parte1, parte2] else None
                | None \<Rightarrow> None);
          r2 = (case match2 of
                  Some (start, parte1, parte2) \<Rightarrow>
                    if start > 0 \<and> parte1 \<noteq> [] \<and> parte2 \<noteq> [] then Some [parte1, parte2]
                    else None
                | None \<Rightarrow> None);
          r3 = (case match3 of
                  Some (start, parte1, parte2) \<Rightarrow>
                    if parte1 \<noteq> [] \<and> parte2 \<noteq> [] then Some [parte1, parte2] else None
                | None \<Rightarrow> None);
          r4 = (case match4 of
                  Some (start, parte1, parte2) \<Rightarrow>
                    if parte1 \<noteq> [] \<and> parte2 \<noteq> [] \<and> length parte1 > 3
                    then Some [parte1, parte2] else None
                | None \<Rightarrow> None)
      in case r1 of Some r \<Rightarrow> r
         | None \<Rightarrow>
        (case r2 of Some r \<Rightarrow> r
         | None \<Rightarrow>
        (case r3 of Some r \<Rightarrow> r
         | None \<Rightarrow>
        (case r4 of Some r \<Rightarrow> r
         | None \<Rightarrow> [texto]))))"

text \<open>
  Facts about \<open>strip\<close> and \<open>_dividir_frase_simple\<close> that the termination of the loop
  of \<open>_separar_exclamaciones_interrogaciones\<close> rests on: a division gives two parts
  that are not empty and together no longer than the text.
\<close>

lemma length_strip_le: "length (strip s) \<le> length s"
proof -
  have "length (rstrip t) \<le> length t" for t
    unfolding rstrip_def by (metis length_dropWhile_le length_rev)
  moreover have "length (lstrip s) \<le> length s"
    unfolding lstrip_def by (rule length_dropWhile_le)
  ultimately show ?thesis
    unfolding strip_def by (meson order_trans)
qed

lemma buscar_division_length:
  assumes "buscar_division patron texto = Some (start, parte1, parte2)"
  shows "length parte1 + length parte2 \<le> length texto"
proof -
  from assms obtain pos where
    p: "parte1 = strip (take pos texto)" "parte2 = strip (drop pos texto)"
    by (auto simp: buscar_division_def Let_def split: option.splits)
  have "length parte1 \<le> length (take pos texto)" "length parte2 \<le> length (drop pos texto)"
    unfolding p by (rule length_strip_le)+
  moreover have "length (take pos texto) + length (drop pos texto) = length texto"
    by simp
  ultimately show ?thesis by linarith
qed

lemma dividir_frase_simple_cases:
  "dividir_frase_simple texto = [texto]
   \<or> (\<exists>parte1 parte2. dividir_frase_simple texto = [parte1, parte2]
         \<and> parte1 \<noteq> [] \<and> parte2 \<noteq> []
         \<and> length parte1 + length parte2 \<le> length texto)"
  unfolding dividir_frase_simple_def Let_def
  by (auto split: option.splits if_splits dest: buscar_division_length)

text \<open>The measure that decreases: the lengths of the sentences, each less one.\<close>

definition por_dividir :: "ustr list \<Rightarrow> nat" where
  "por_dividir frases = sum_list (map (\<lambda>f. length f - 1) frases)"

lemma por_dividir_dividir:
  "por_dividir (dividir_frase_simple f) \<le> length f - 1"
  "length (dividir_frase_simple f) > 1 \<Longrightarrow> por_dividir (dividir_frase_simple f) < length f - 1"
proof -
  have pos: "0 < length p" if "p \<noteq> []" for p :: ustr
    using that by simp
  from dividir_frase_simple_cases [of f]
  show "por_dividir (dividir_frase_simple f) \<le> length f - 1"
  proof
    assume "dividir_frase_simple f = [f]"
    then show ?thesis by (simp add: por_dividir_def)
  next
    assume "\<exists>parte1 parte2. dividir_frase_simple f = [parte1, parte2]
         \<and> parte1 \<noteq> [] \<and> parte2 \<noteq> []
         \<and> length parte1 + length parte2 \<le> length f"
    then obtain p1 p2 where d: "dividir_frase_simple f = [p1, p2]"
      and n: "p1 \<noteq> []" "p2 \<noteq> []" and l: "length p1 + length p2 \<le> length f"
      by blast
    from pos [OF n(1)] pos [OF n(2)] l
    have "length p1 - 1 + (length p2 - 1) \<le> length f - 1" by arith
    then show ?thesis by (simp add: d por_dividir_def)
  qed
  from dividir_frase_simple_cases [of f]
  show "por_dividir (dividir_frase_simple f) < length f - 1"
    if "length (dividir_frase_simple f) > 1"
  proof
    assume "dividir_frase_simple f = [f]"
    with that show ?thesis by simp
  next
    assume "\<exists>parte1 parte2. dividir_frase_simple f = [parte1, parte2]
         \<and> parte1 \<noteq> [] \<and> parte2 \<noteq> []
         \<and> length parte1 + length parte2 \<le> length f"
    then obtain p1 p2 where d: "dividir_frase_simple f = [p1, p2]"
      and n: "p1 \<noteq> []" "p2 \<noteq> []" and l: "length p1 + length p2 \<le> length f"
      by blast
    from pos [OF n(1)] pos [OF n(2)] l
    have "length p1 - 1 + (length p2 - 1) < length f - 1" by arith
    then show ?thesis by (simp add: d por_dividir_def)
  qed
qed

lemma por_dividir_concat:
  "por_dividir (concat (map dividir_frase_simple frases)) \<le> por_dividir frases"
  "list_ex (\<lambda>f. length (dividir_frase_simple f) > 1) frases \<Longrightarrow>
     por_dividir (concat (map dividir_frase_simple frases)) < por_dividir frases"
proof (induction frases)
  case Nil
  {
    case 1
    show ?case by (simp add: por_dividir_def)
  next
    case 2
    then show ?case by simp
  }
next
  case (Cons f frases)
  have app: "por_dividir (xs @ ys) = por_dividir xs + por_dividir ys" for xs ys
    by (simp add: por_dividir_def)
  have cons: "por_dividir (f # frases) = (length f - 1) + por_dividir frases"
    by (simp add: por_dividir_def)
  {
    case 1
    show ?case
      using por_dividir_dividir(1) [of f] Cons.IH(1) by (simp add: app cons)
  next
    case 2
    show ?case
    proof (cases "length (dividir_frase_simple f) > 1")
      case True
      then show ?thesis
        using por_dividir_dividir(2) [of f] Cons.IH(1) by (simp add: app cons)
    next
      case False
      with 2 have "list_ex (\<lambda>f. length (dividir_frase_simple f) > 1) frases" by simp
      then show ?thesis
        using por_dividir_dividir(1) [of f] Cons.IH(2) by (simp add: app cons)
    qed
  }
qed

text \<open>
  The loop \<open>while cambios\<close> of \<open>_separar_exclamaciones_interrogaciones\<close>: every
  sentence is divided once, and the loop goes on while a sentence was divided.
\<close>

function separar_bucle :: "ustr list \<Rightarrow> ustr list" where
  "separar_bucle frases_actuales =
     (let cambios = list_ex (\<lambda>frase. length (dividir_frase_simple frase) > 1) frases_actuales;
          nuevas_frases = concat (map dividir_frase_simple frases_actuales)
      in if cambios then separar_bucle nuevas_frases else nuevas_frases)"
  by pat_completeness auto
termination
  by (relation "measure por_dividir") (simp_all add: por_dividir_concat(2))

declare separar_bucle.simps [simp del]

text \<open>
  The second loop of \<open>_separar_exclamaciones_interrogaciones\<close>, for one sentence: it is
  stripped, dropped when empty, and completed with a final mark when it has none.
\<close>

definition finalizar_frase :: "ustr \<Rightarrow> ustr list" where
  "finalizar_frase frase =
     (let frase_limpia = strip frase
      in if frase_limpia \<noteq> [] then
           (if \<not> one_of ''.!?'' (last frase_limpia) then
              (if startswith frase_limpia [161] \<or> 161 \<in> set frase_limpia
                 then [frase_limpia @ ustr ''!'']
               else if startswith frase_limpia [191] \<or> 191 \<in> set frase_limpia
                 then [frase_limpia @ ustr ''?'']
               else [frase_limpia @ ustr ''.''])
            else [frase_limpia])
         else [])"

definition separar_exclamaciones_interrogaciones :: "ustr \<Rightarrow> ustr list" where
  "separar_exclamaciones_interrogaciones texto =
     concat (map finalizar_frase (separar_bucle [texto]))"

text \<open>
  The two replacements of \<open>_segmentar_frases\<close>: \<open>\1<DOT> \<close> for a protected
  abbreviation, whose first group is the text before the full stop, and
  \<open>\1<FRASE_BREAK>\2\<close>, whose groups are the first and the last code point of the
  match.
\<close>

definition proteger :: "ustr \<Rightarrow> ustr" where
  "proteger m = takeWhile (\<lambda>c. c \<noteq> 46) m @ ustr ''<DOT> ''"

definition marcar_ruptura :: "ustr \<Rightarrow> ustr" where
  "marcar_ruptura m = [hd m] @ ustr ''<FRASE_BREAK>'' @ [last m]"

text \<open>\<open>_segmentar_frases\<close>\<close>

definition segmentar_frases :: "(nat \<Rightarrow> bool) \<Rightarrow> ustr \<Rightarrow> ustr list" where
  "segmentar_frases isword parrafo =
     (let texto_protegido = re_sub (abreviatura_matcher isword) proteger parrafo;
          texto_protegido =
            re_sub (seq_matcher [(one_of ''.!?'', Once), (isspace, AtLeast 0), (apertura, Once)])
              marcar_ruptura texto_protegido;
          texto_protegido =
            re_sub (seq_matcher [(one_of ''.!?'', Once), (isspace, AtLeast 2), (apertura, Once)])
              marcar_ruptura texto_protegido;
          frases_raw =
            (if contains (ustr ''<FRASE_BREAK>'') texto_protegido
             then str_split texto_protegido (ustr ''<FRASE_BREAK>'')
             else re_split (seq_matcher [(one_of ''.!?'', AtLeast 1), (isspace, AtLeast 1)])
                    texto_protegido);
          frases =
            concat (map (\<lambda>f.
              (let f_clean = strip (str_replace f (ustr ''<DOT>'') (ustr ''.''))
               in if f_clean \<noteq> [] then separar_exclamaciones_interrogaciones f_clean
                  else [])) frases_raw)
      in filter (\<lambda>f. strip f \<noteq> []) frases)"

text \<open>
  The paragraph of the specification's example, a question and an answer; the code
  point 237 is the letter i with an acute accent.
\<close>

definition parrafo_vienes :: ustr where
  "parrafo_vienes = [191] @ ustr ''Vienes? S'' @ [237] @ ustr '', claro.''"

section \<open>Acoustic analysis (prosody\_processor.py)\<close>

subsection \<open>Analysed windows\<close>

text \<open>
  The four position classes that \<open>_classify_position\<close> returns as the strings
  \<open>'attack'\<close>, \<open>'sustain'\<close>, \<open>'decay'\<close> and \<open>'release'\<close>.
\<close>

datatype position_type = Attack | Sustain | Decay | Release

definition classify_position :: "real \<Rightarrow> position_type" where
  "classify_position position =
     (if position < 0.15 then Attack
      else if position < 0.7 then Sustain
      else if position < 0.85 then Decay
      else Release)"

text \<open>
  The dictionary \<open>window_data\<close> that \<open>analyze_complete_audio\<close> builds for a window.
  Its pitch, energy and spectral centroid come from \<open>librosa\<close> and \<open>numpy\<close>, which
  are not part of the repository: they are the values stored in the record. The key
  \<open>text_snippet\<close> is read by \<open>identify_problems\<close> with \<open>window.get\<close> and is never
  written by the analyser, so it is optional.
\<close>

record window_data =
  window_id :: nat
  position :: real
  w_position_type :: position_type
  w_pitch_mean :: real
  energy :: real
  spectral_centroid :: real
  text_snippet :: "ustr option"

subsection \<open>Summary of a segment\<close>

text \<open>
  The keys \<open>pitch_start\<close>, \<open>pitch_middle\<close>, \<open>pitch_end\<close> and \<open>arc_slope\<close> that
  \<open>analyze_complete_audio\<close> adds to the analysis of a segment. Each value is a numpy
  float, \<open>None\<close> when it is NaN.
\<close>

record arc_metrics =
  pitch_start :: "real option"
  pitch_middle :: "real option"
  pitch_end :: "real option"
  arc_slope :: "real option"

text \<open>The list \<open>all_pitches\<close>: the pitch of the windows whose pitch is positive.\<close>

definition all_pitches :: "window_data list \<Rightarrow> real list" where
  "all_pitches windows = filter (\<lambda>p. p > 0) (map w_pitch_mean windows)"

text \<open>
  The block of \<open>analyze_complete_audio\<close> under the comment on the metrics of the
  prosodic arc. The result is \<open>None\<close> when the four keys are not set: no window, or no
  window with a positive pitch.
\<close>

definition prosodic_arc_metrics :: "window_data list \<Rightarrow> arc_metrics option" where
  "prosodic_arc_metrics windows =
     (if windows \<noteq> [] then
        (let ps = all_pitches windows in
         if ps \<noteq> [] then
           (let p_start = np_mean (slice_to (max 2 (length ps div 5)) ps);
                p_middle = np_mean (slice_between (length ps div 3) (2 * length ps div 3) ps);
                p_end = np_mean (slice_last (max 2 (length ps div 5)) ps);
                slope = (case (p_end, p_start) of
                           (Some e, Some s) \<Rightarrow> Some ((e - s) / s)
                         | _ \<Rightarrow> None)
            in Some \<lparr> pitch_start = p_start, pitch_middle = p_middle, pitch_end = p_end,
                      arc_slope = slope \<rparr>)
         else None)
      else None)"

text \<open>
  The summary as the specification words it, for comparison: the mean pitch over the
  first fifth, the middle fifth and the last fifth of the voiced frames.
\<close>

definition spec_pitch_start :: "real list \<Rightarrow> real option" where
  "spec_pitch_start ps = np_mean (slice_to (length ps div 5) ps)"

definition spec_pitch_middle :: "real list \<Rightarrow> real option" where
  "spec_pitch_middle ps = np_mean (slice_between (2 * length ps div 5) (3 * length ps div 5) ps)"

definition spec_pitch_end :: "real list \<Rightarrow> real option" where
  "spec_pitch_end ps = np_mean (slice_last (length ps div 5) ps)"

text \<open>A window that carries only a pitch, for examples.\<close>

definition window_of_pitch :: "nat \<Rightarrow> real \<Rightarrow> window_data" where
  "window_of_pitch i p =
     \<lparr> window_id = i, position = 0, w_position_type = Attack, w_pitch_mean = p, energy = 0,
       spectral_centroid = 0, text_snippet = None \<rparr>"

text \<open>
  Ten analysed windows, all voiced, and five analysed windows, all voiced, for examples.
\<close>

definition ten_windows :: "window_data list" where
  "ten_windows =
     map (\<lambda>(i, p). window_of_pitch i p)
       (zip [0..<10] [100, 200, 100, 90, 120, 90, 100, 100, 100, 100])"

definition five_windows :: "window_data list" where
  "five_windows =
     map (\<lambda>(i, p). window_of_pitch i p) (zip [0..<5] [100, 200, 100, 100, 100])"

subsection \<open>Problem detector\<close>

text \<open>
  The strings that \<open>_detect_sentence_type\<close> returns, and the keys of
  \<open>palabras_especiales\<close>.
\<close>

datatype sentence_type = Interrogative | Exclamative | Suspensive | Declarative

datatype categoria = Enfasis_alto | Micro_ascenso | Mantener_grave | Finales_definitivos

text \<open>
  The analysis of a segment, the dictionary \<open>segment_analysis\<close>. The keys that
  \<open>analyze_complete_audio\<close> always sets are fields; the keys that may be missing are
  optional fields (\<open>pitch_mean\<close> is read by \<open>_verificar_enfasis_palabra\<close> and never set
  by the analyser). The values are floats that are not NaN.
\<close>

record segment_analysis =
  segment_id :: nat
  seg_text :: ustr
  text_length :: nat
  windows :: "window_data list"
  is_paragraph_end :: bool
  is_question :: bool
  is_exclamation :: bool
  seg_sentence_type :: sentence_type
  seg_pitch_start :: "real option"
  seg_pitch_middle :: "real option"
  seg_pitch_end :: "real option"
  seg_arc_slope :: "real option"
  seg_pitch_mean :: "real option"

text \<open>
  The values of the key \<open>type\<close> of a problem; the last one stands for the four strings
  \<open>missing_emphasis_\<close> followed by a category.
\<close>

datatype problem_type =
    Missing_paragraph_cadence
  | Missing_question_rise
  | Missing_micro_ascenso
  | Insufficient_emphasis
  | Missing_definitive_ending
  | Inverted_prosodic_arc
  | Missing_emphasis categoria

text \<open>
  A problem dictionary. \<open>current\<close> and \<open>expected\<close> are the pair of keys
  \<open>current_pitch\<close> and \<open>expected_pitch\<close>, or \<open>current_slope\<close> and \<open>expected_slope\<close>,
  or \<open>current_variation\<close> and \<open>expected_variation\<close>; the key \<open>description\<close>, a
  message, is left out. \<open>p_segment_id\<close> is a Python integer: the regenerator uses it
  as a list index.
\<close>

record problem =
  p_segment_id :: int
  p_window_id :: "nat option"
  p_type :: problem_type
  severity :: real
  current :: real
  expected :: real
  palabra_clave :: "ustr option"
  palabra :: "ustr option"

text \<open>The dictionary \<open>rules\<close> of \<open>ProsodyProblemDetector\<close>.\<close>

record rules =
  paragraph_end_drop :: real
  question_rise :: real
  transition_max_jump :: real
  arc_slope_ideal :: real
  start_energy_boost :: real
  micro_ascenso_esperado :: real
  enfasis_especial :: real
  mantener_tension :: real
  descenso_final_fuerte :: real
  velocidad_variacion :: real

definition detector_rules :: rules where
  "detector_rules =
     \<lparr> paragraph_end_drop = - 0.08, question_rise = 0.15, transition_max_jump = 0.25,
       arc_slope_ideal = - 0.05, start_energy_boost = 0.02, micro_ascenso_esperado = 0.03,
       enfasis_especial = 0.08, mantener_tension = - 0.02, descenso_final_fuerte = - 0.12,
       velocidad_variacion = 0.15 \<rparr>"

text \<open>
  The dictionary \<open>palabras_especiales\<close>, in the order of its keys; the code point 237 is
  the letter i with an acute accent.
\<close>

definition palabras_especiales :: "(categoria \<times> ustr list) list" where
  "palabras_especiales =
     [(Enfasis_alto,
         [ustr ''diferente'', ustr ''incre'' @ [237] @ ustr ''ble'', ustr ''importante'',
          ustr ''fundamental'', ustr ''crucial'']),
      (Micro_ascenso,
         [ustr ''jazm'' @ [237] @ ustr ''n'', ustr ''sal marina'', ustr ''marina'',
          ustr ''olvidadas'', ustr ''amanecer'', ustr ''esperanza'', ustr ''doraron'']),
      (Mantener_grave,
         [ustr ''oscuridad'', ustr ''sombras'', ustr ''silencio'', ustr ''profundidad'',
          ustr ''niebla'']),
      (Finales_definitivos,
         [ustr ''definitivo'', ustr ''final'', ustr ''siempre'', ustr ''nunca'',
          ustr ''eternidad'', ustr ''silencio'', ustr ''vigilia''])]"

definition palabras_de :: "categoria \<Rightarrow> ustr list" where
  "palabras_de cat = concat (map snd (filter (\<lambda>(c, ps). c = cat) palabras_especiales))"

text \<open>
  Problems 1 and 2 of \<open>identify_problems\<close>, an \<open>if\<close> and its \<open>elif\<close>: a paragraph end
  without a fall, or a question without a rise.
\<close>

definition problema_cadencia :: "nat \<Rightarrow> segment_analysis \<Rightarrow> window_data \<Rightarrow> problem list" where
  "problema_cadencia i segment last_window =
     (if is_paragraph_end segment \<and> seg_sentence_type segment = Declarative then
        (case (seg_pitch_start segment, seg_pitch_end segment) of
           (Some p_start, Some p_end) \<Rightarrow>
             (let expected_drop = p_start * (1 + paragraph_end_drop detector_rules);
                  actual = p_end
              in if actual > expected_drop \<and> actual > 0 then
                   [\<lparr> p_segment_id = int i, p_window_id = Some (window_id last_window),
                      p_type = Missing_paragraph_cadence,
                      severity = \<bar>actual - expected_drop\<bar> / max expected_drop 1,
                      current = actual, expected = expected_drop,
                      palabra_clave = None, palabra = None \<rparr>]
                 else [])
         | _ \<Rightarrow> [])
      else if is_question segment then
        (case (seg_pitch_middle segment, seg_pitch_end segment) of
           (Some p_middle, Some p_end) \<Rightarrow>
             (let expected_rise = p_middle * (1 + question_rise detector_rules);
                  actual = p_end
              in if actual < expected_rise \<and> actual > 0 then
                   [\<lparr> p_segment_id = int i, p_window_id = Some (window_id last_window),
                      p_type = Missing_question_rise,
                      severity = \<bar>expected_rise - actual\<bar> / max expected_rise 1,
                      current = actual, expected = expected_rise,
                      palabra_clave = None, palabra = None \<rparr>]
                 else [])
         | _ \<Rightarrow> [])
      else [])"

text \<open>
  Problems 3 and 4: for each key word of a category that the text contains, each window
  whose \<open>text_snippet\<close> contains it is compared with its own pitch raised by \<open>boost\<close>.
  The two loops differ in the category, the boost, the tolerance, the weight of the
  severity and the type of the problem.
\<close>

definition problemas_palabra_ventana ::
  "(ustr \<Rightarrow> ustr) \<Rightarrow> nat \<Rightarrow> segment_analysis \<Rightarrow> categoria \<Rightarrow> real \<Rightarrow> real \<Rightarrow> real
     \<Rightarrow> problem_type \<Rightarrow> problem list" where
  "problemas_palabra_ventana lower i segment cat boost tolerancia peso tipo =
     (let texto_segment = lower (seg_text segment)
      in concat (map (\<lambda>pal.
           if contains pal texto_segment then
             concat (map (\<lambda>window.
               if contains pal (lower (case text_snippet window of None \<Rightarrow> [] | Some t \<Rightarrow> t))
               then
                 (let pitch_actual = w_pitch_mean window;
                      pitch_esperado = pitch_actual * (1 + boost)
                  in if pitch_actual < pitch_esperado * tolerancia then
                       [\<lparr> p_segment_id = int i, p_window_id = Some (window_id window),
                          p_type = tipo,
                          severity =
                            (\<bar>pitch_esperado - pitch_actual\<bar> / max pitch_esperado 1) * peso,
                          current = pitch_actual, expected = pitch_esperado,
                          palabra_clave = Some pal, palabra = None \<rparr>]
                     else [])
               else []) (windows segment))
           else []) (palabras_de cat)))"

text \<open>Problem 5: a key word of a definitive ending at a paragraph end without a strong fall.\<close>

definition problemas_final_palabra ::
  "(ustr \<Rightarrow> ustr) \<Rightarrow> nat \<Rightarrow> segment_analysis \<Rightarrow> problem list" where
  "problemas_final_palabra lower i segment =
     (let texto_segment = lower (seg_text segment)
      in concat (map (\<lambda>pal.
           if contains pal texto_segment \<and> is_paragraph_end segment then
             (case (seg_pitch_start segment, seg_pitch_end segment) of
                (Some p_start, Some p_end) \<Rightarrow>
                  (let expected_drop = p_start * (1 + descenso_final_fuerte detector_rules);
                       actual = p_end
                   in if actual > expected_drop * 1.1 then
                        [\<lparr> p_segment_id = int i, p_window_id = None,
                           p_type = Missing_definitive_ending,
                           severity = (\<bar>actual - expected_drop\<bar> / max expected_drop 1) * 1.3,
                           current = actual, expected = expected_drop,
                           palabra_clave = Some pal, palabra = None \<rparr>]
                      else [])
              | _ \<Rightarrow> [])
           else []) (palabras_de Finales_definitivos)))"

text \<open>Problem 6 (the first of that number): an arc that rises.\<close>

definition problema_arco_invertido :: "nat \<Rightarrow> segment_analysis \<Rightarrow> problem list" where
  "problema_arco_invertido i segment =
     (case seg_arc_slope segment of
        Some slope \<Rightarrow>
          if slope > 0.1 then
            [\<lparr> p_segment_id = int i, p_window_id = None, p_type = Inverted_prosodic_arc,
               severity = min \<bar>slope - arc_slope_ideal detector_rules\<bar> 1.0 * 0.8,
               current = slope, expected = arc_slope_ideal detector_rules,
               palabra_clave = None, palabra = None \<rparr>]
          else []
      | None \<Rightarrow> [])"

text \<open>\<open>_verificar_enfasis_palabra\<close>\<close>

definition verificar_enfasis_palabra ::
  "segment_analysis \<Rightarrow> ustr \<Rightarrow> categoria \<Rightarrow> problem option" where
  "verificar_enfasis_palabra segment pal cat =
     (case seg_pitch_mean segment of
        None \<Rightarrow> None
      | Some p_mean \<Rightarrow>
          if p_mean \<le> 0 then None
          else
            (let expected_boost =
                   (case cat of
                      Enfasis_alto \<Rightarrow> enfasis_especial detector_rules
                    | Micro_ascenso \<Rightarrow> micro_ascenso_esperado detector_rules
                    | Mantener_grave \<Rightarrow> - mantener_tension detector_rules
                    | Finales_definitivos \<Rightarrow> descenso_final_fuerte detector_rules);
                 pitch_variation =
                   (case seg_pitch_end segment of None \<Rightarrow> p_mean | Some e \<Rightarrow> e)
                     - (case seg_pitch_start segment of None \<Rightarrow> p_mean | Some s \<Rightarrow> s);
                 expected_variation = p_mean * expected_boost
             in if \<bar>pitch_variation - expected_variation\<bar> > \<bar>expected_variation * 0.5\<bar> then
                  Some \<lparr> p_segment_id = int (segment_id segment), p_window_id = None,
                         p_type = Missing_emphasis cat,
                         severity =
                           min (\<bar>pitch_variation - expected_variation\<bar>
                                  / max \<bar>expected_variation\<bar> 1) 1.0,
                         current = pitch_variation, expected = expected_variation,
                         palabra_clave = None, palabra = Some pal \<rparr>
                else None))"

text \<open>The loop over \<open>palabras_especiales.items()\<close> that calls it.\<close>

definition problemas_enfasis :: "(ustr \<Rightarrow> ustr) \<Rightarrow> segment_analysis \<Rightarrow> problem list" where
  "problemas_enfasis lower segment =
     (let text_lower = lower (seg_text segment)
      in concat (map (\<lambda>(cat, pals).
           concat (map (\<lambda>pal.
             if contains pal text_lower then
               (case verificar_enfasis_palabra segment pal cat of
                  Some p \<Rightarrow> [p]
                | None \<Rightarrow> [])
             else []) pals)) palabras_especiales))"

text \<open>\<open>_verificar_variacion_velocidad\<close>, which is disabled and returns \<open>None\<close>.\<close>

definition verificar_variacion_velocidad :: "segment_analysis list \<Rightarrow> nat \<Rightarrow> problem option" where
  "verificar_variacion_velocidad analysis_map current_index = None"

text \<open>\<open>_es_final_definitivo\<close> and \<open>_verificar_final_definitivo\<close>\<close>

definition es_final_definitivo :: "(ustr \<Rightarrow> ustr) \<Rightarrow> segment_analysis \<Rightarrow> bool" where
  "es_final_definitivo lower segment =
     (let text = lower (seg_text segment)
      in if list_ex (\<lambda>pal. contains pal text)
              [ustr ''final'', ustr ''siempre'', ustr ''nunca'', ustr ''definitivo'',
               ustr ''eternidad'', ustr ''para siempre'']
         then True
         else if is_paragraph_end segment \<and> endswith text (ustr ''.'') then True
         else False)"

definition verificar_final_definitivo :: "segment_analysis \<Rightarrow> nat \<Rightarrow> problem option" where
  "verificar_final_definitivo segment i =
     (case (seg_pitch_start segment, seg_pitch_end segment) of
        (Some p_start, Some p_end) \<Rightarrow>
          (let expected_drop = p_start * (1 + descenso_final_fuerte detector_rules);
               actual = p_end
           in if actual > expected_drop \<and> actual > 0 then
                Some \<lparr> p_segment_id = int i, p_window_id = None,
                       p_type = Missing_definitive_ending,
                       severity = min (\<bar>actual - expected_drop\<bar> / max \<bar>expected_drop\<bar> 1) 1.0,
                       current = actual, expected = expected_drop,
                       palabra_clave = None, palabra = None \<rparr>
              else None)
      | _ \<Rightarrow> None)"

text \<open>
  The body of the loop of \<open>identify_problems\<close> for the segment at index \<open>i\<close>: the
  problems it appends, in order. A segment without a window of type release is skipped.
\<close>

definition problemas_segmento ::
  "(ustr \<Rightarrow> ustr) \<Rightarrow> segment_analysis list \<Rightarrow> nat \<Rightarrow> segment_analysis \<Rightarrow> problem list" where
  "problemas_segmento lower analysis_map i segment =
     (let ending_windows = filter (\<lambda>w. w_position_type w = Release) (windows segment)
      in if ending_windows = [] then []
         else
           (let last_window = last ending_windows
            in problema_cadencia i segment last_window
               @ problemas_palabra_ventana lower i segment Micro_ascenso
                   (micro_ascenso_esperado detector_rules) 0.95 1.2 Missing_micro_ascenso
               @ problemas_palabra_ventana lower i segment Enfasis_alto
                   (enfasis_especial detector_rules) 0.9 1.5 Insufficient_emphasis
               @ problemas_final_palabra lower i segment
               @ problema_arco_invertido i segment
               @ problemas_enfasis lower segment
               @ (if i > 0 then
                    (case verificar_variacion_velocidad analysis_map i of
                       Some p \<Rightarrow> [p] | None \<Rightarrow> [])
                  else [])
               @ (if es_final_definitivo lower segment then
                    (case verificar_final_definitivo segment i of
                       Some p \<Rightarrow> [p] | None \<Rightarrow> [])
                  else [])))"

text \<open>
  \<open>identify_problems\<close>. \<open>sorted\<close> with \<open>reverse=True\<close> is stable: problems of equal
  severity keep their order, as the insertion sort on the negated severity does.
\<close>

definition identify_problems :: "(ustr \<Rightarrow> ustr) \<Rightarrow> segment_analysis list \<Rightarrow> problem list" where
  "identify_problems lower analysis_map =
     sort_key (\<lambda>p. - severity p)
       (concat (map (\<lambda>(i, segment). problemas_segmento lower analysis_map i segment)
                  (enumerate 0 analysis_map)))"

text \<open>
  The analysis of one declarative sentence that ends a paragraph, with one window in
  the release position and a pitch that rises from 100 Hz at the start to 300 Hz at the
  end.
\<close>

definition rising_segment :: segment_analysis where
  "rising_segment =
     \<lparr> segment_id = 0, seg_text = ustr ''Hola mundo.'', text_length = 11,
       windows = [\<lparr> window_id = 0, position = 1, w_position_type = Release,
                    w_pitch_mean = 300, energy = 0.1, spectral_centroid = 1500,
                    text_snippet = None \<rparr>],
       is_paragraph_end = True, is_question = False, is_exclamation = False,
       seg_sentence_type = Declarative,
       seg_pitch_start = Some 100, seg_pitch_middle = Some 200, seg_pitch_end = Some 300,
       seg_arc_slope = Some 2, seg_pitch_mean = None \<rparr>"

subsection \<open>Selective regenerator\<close>

text \<open>
  The attributes \<open>max_attempts\<close> and \<open>max_fixes\<close> of a \<open>SelectiveRegenerator\<close>, with
  the defaults of \<open>__init__\<close>.
\<close>

record regenerator =
  max_attempts :: int
  max_fixes :: int

definition regenerator_inicial :: regenerator where
  "regenerator_inicial = \<lparr> max_attempts = 25, max_fixes = 8 \<rparr>"

text \<open>
  What the \<open>try\<close> block of one regeneration attempt does. The synthesis engine and the
  pitch analysis of \<open>librosa\<close> are not part of the repository, so the outcome of an
  attempt is a parameter of the model:
  \<^item> \<open>Vacio\<close>: \<open>_generate_with_params\<close> returns an empty array;
  \<^item> \<open>Puntuado a s\<close>: it returns the audio \<open>a\<close>, not empty, and \<open>_evaluate_fix\<close>
    gives it the score \<open>s\<close>;
  \<^item> \<open>Error_antes strict\<close>: an exception is raised before the audio is there;
  \<^item> \<open>Error_evaluacion strict\<close>: an exception is raised after the counter of
    consecutive failures has been reset, in \<open>_evaluate_fix\<close>.
  \<open>strict\<close> tells whether the message of the exception contains
  \<open>must be strictly increasing\<close>, in which case the handler calls \<open>sys.exit(1)\<close>.
\<close>

datatype intento = Vacio | Puntuado audio real | Error_antes bool | Error_evaluacion bool

text \<open>
  The loop \<open>for attempt in range(max_safe_attempts)\<close> over the attempts that are left,
  with the state \<open>(best_candidate, best_score, consecutive_failures)\<close>. The result is
  the best candidate and its score when the loop ends or breaks, and \<open>None\<close> when
  \<open>sys.exit(1)\<close> is called.
\<close>

fun intentos ::
  "(nat \<Rightarrow> intento) \<Rightarrow> nat list \<Rightarrow> audio option \<times> real \<times> nat \<Rightarrow> (audio option \<times> real) option"
  where
  "intentos regen [] (best_candidate, best_score, consecutive_failures) =
     Some (best_candidate, best_score)"
| "intentos regen (attempt # rest) (best_candidate, best_score, consecutive_failures) =
     (case regen attempt of
        Vacio \<Rightarrow>
          if consecutive_failures + 1 \<ge> 3 then Some (best_candidate, best_score)
          else intentos regen rest (best_candidate, best_score, consecutive_failures + 1)
      | Puntuado new_audio score \<Rightarrow>
          (let (best_candidate', best_score') =
                 (if score > best_score then (Some new_audio, score)
                  else (best_candidate, best_score))
           in if score > 0.8 then Some (best_candidate', best_score')
              else intentos regen rest (best_candidate', best_score', 0))
      | Error_antes strict \<Rightarrow>
          if strict then None
          else if consecutive_failures + 1 \<ge> 3 then Some (best_candidate, best_score)
          else intentos regen rest (best_candidate, best_score, consecutive_failures + 1)
      | Error_evaluacion strict \<Rightarrow>
          if strict then None
          else if (0::nat) + 1 \<ge> 3 then Some (best_candidate, best_score)
          else intentos regen rest (best_candidate, best_score, 0 + 1))"

text \<open>
  The attempts for one problem: \<open>best_candidate = None\<close>, \<open>best_score = 0\<close>, no
  failure yet, and \<open>min(self.max_attempts, 5)\<close> attempts.
\<close>

definition mejor_candidato :: "regenerator \<Rightarrow> (nat \<Rightarrow> intento) \<Rightarrow> (audio option \<times> real) option" where
  "mejor_candidato r regen =
     intentos regen [0..<nat (min (max_attempts r) 5)] (None, 0, 0)"

text \<open>
  The dictionary \<open>fix_report\<close>; \<open>fix_list\<close> is its key \<open>fixes\<close>, and an entry is
  a triple of the segment, the type of the problem and the score.
\<close>

record fix_report =
  attempted :: nat
  successful :: nat
  failed :: nat
  fix_list :: "(int \<times> problem_type \<times> real) list"

text \<open>
  The loop of \<open>fix_critical_problems\<close> over the critical problems that are left; \<open>k\<close>
  counts the problems done, and \<open>regen k\<close> gives the outcomes of the attempts for
  problem \<open>k\<close>. The reads \<open>texts[seg_id]\<close> and the write \<open>fixed_segments[seg_id]\<close>
  raise \<open>IndexError\<close> outside the list.
\<close>

fun corregir ::
  "regenerator \<Rightarrow> (nat \<Rightarrow> nat \<Rightarrow> intento) \<Rightarrow> ustr list \<Rightarrow> nat \<Rightarrow> problem list
     \<Rightarrow> audio list \<times> fix_report \<Rightarrow> py_error + audio list \<times> fix_report" where
  "corregir r regen texts k [] (fixed_segments, report) = Inr (fixed_segments, report)"
| "corregir r regen texts k (problem # rest) (fixed_segments, report) =
     (let seg_id = p_segment_id problem;
          report1 = report\<lparr> attempted := attempted report + 1 \<rparr>
      in case py_index seg_id (length texts) of
           None \<Rightarrow> Inl IndexError
         | Some t \<Rightarrow>
             (case mejor_candidato r (regen k) of
                None \<Rightarrow> Inl SystemExit
              | Some (best_candidate, best_score) \<Rightarrow>
                  (case best_candidate of
                     Some candidate \<Rightarrow>
                       if best_score > 0.5 then
                         (case py_index seg_id (length fixed_segments) of
                            None \<Rightarrow> Inl IndexError
                          | Some j \<Rightarrow>
                              corregir r regen texts (k + 1) rest
                                (fixed_segments[j := candidate],
                                 report1\<lparr> successful := successful report1 + 1,
                                          fix_list := fix_list report1
                                            @ [(seg_id, p_type problem, best_score)] \<rparr>))
                       else
                         corregir r regen texts (k + 1) rest
                           (fixed_segments, report1\<lparr> failed := failed report1 + 1 \<rparr>)
                   | None \<Rightarrow>
                       corregir r regen texts (k + 1) rest
                         (fixed_segments, report1\<lparr> failed := failed report1 + 1 \<rparr>))))"

text \<open>The list \<open>critical_problems\<close>.\<close>

definition critical_problems :: "regenerator \<Rightarrow> problem list \<Rightarrow> real \<Rightarrow> problem list" where
  "critical_problems r problems severity_threshold =
     slice_to_int (max_fixes r) (filter (\<lambda>p. severity p > severity_threshold) problems)"

text \<open>
  \<open>fix_critical_problems\<close>. The copy \<open>audio_segments.copy()\<close> is the list itself, as
  lists are values here.
\<close>

definition fix_critical_problems ::
  "regenerator \<Rightarrow> (nat \<Rightarrow> nat \<Rightarrow> intento) \<Rightarrow> problem list \<Rightarrow> audio list \<Rightarrow> ustr list \<Rightarrow> real
     \<Rightarrow> py_error + audio list \<times> fix_report" where
  "fix_critical_problems r regen problems audio_segments texts severity_threshold =
     (let fixed_segments = audio_segments;
          report = \<lparr> attempted = 0, successful = 0, failed = 0, fix_list = [] \<rparr>;
          critical = critical_problems r problems severity_threshold
      in if critical = [] then Inr (fixed_segments, report)
         else corregir r regen texts 0 critical (fixed_segments, report))"

text \<open>
  For examples: a problem of severity 0.9 on the segment at index 1, and attempts that
  always give the one-sample audio \<open>[3]\<close> with score 0.9.
\<close>

definition problema_ejemplo :: problem where
  "problema_ejemplo =
     \<lparr> p_segment_id = 1, p_window_id = None, p_type = Inverted_prosodic_arc,
       severity = 0.9, current = 0.5, expected = - 0.05,
       palabra_clave = None, palabra = None \<rparr>"

definition regen_ejemplo :: "nat \<Rightarrow> nat \<Rightarrow> intento" where
  "regen_ejemplo k attempt = Puntuado [3] 0.9"

section \<open>Validated generation (complex\_generator.py)\<close>

subsection \<open>The generator object\<close>

text \<open>The dictionary \<open>quality_metrics\<close> of \<open>EstructuraComplejaMejorada\<close>.\<close>

record quality_metrics =
  min_duration_ratio :: real
  max_duration_ratio :: real
  min_energy_threshold :: real
  max_silence_ratio :: real
  pitch_stability_threshold :: real

text \<open>
  The attributes of an \<open>EstructuraComplejaMejorada\<close> object that the modelled methods
  read or write. \<open>max_validation_attempts\<close> and \<open>fallback_after_attempts\<close> are an
  integer or \<open>None\<close>.
\<close>

record generador =
  sample_rate :: nat
  crossfade_duration :: real
  nfe_steps :: int
  sway_sampling_coef :: real
  cfg_strength :: real
  speed :: real
  max_validation_attempts :: "int option"
  fallback_after_attempts :: "int option"
  metrics :: quality_metrics

text \<open>The values that \<open>__init__\<close> sets.\<close>

definition generador_inicial :: generador where
  "generador_inicial =
     \<lparr> sample_rate = 24000, crossfade_duration = 0.15, nfe_steps = 64,
       sway_sampling_coef = - 1.0, cfg_strength = 2.0, speed = 0.95,
       max_validation_attempts = None, fallback_after_attempts = Some 50,
       metrics = \<lparr> min_duration_ratio = 0.7, max_duration_ratio = 1.5,
                   min_energy_threshold = 0.001, max_silence_ratio = 0.25,
                   pitch_stability_threshold = 0.05 \<rparr> \<rparr>"

subsection \<open>Features of the text\<close>

text \<open>
  The character class \<open>[aeiou]\<close> and the class of the vowels with an acute accent
  (code points 225, 233, 237, 243, 250).
\<close>

definition vocal :: "nat \<Rightarrow> bool" where
  "vocal c \<longleftrightarrow> one_of ''aeiou'' c"

definition vocal_acentuada :: "nat \<Rightarrow> bool" where
  "vocal_acentuada c \<longleftrightarrow> one_of ''aeiou'' c \<or> c \<in> set [225, 233, 237, 243, 250]"

text \<open>The three patterns of \<open>sinalefa_patterns\<close> and the list \<open>problematic_finals\<close>.\<close>

definition sinalefa_patterns :: "item list list" where
  "sinalefa_patterns =
     [[(vocal_acentuada, Once), (isspace, AtLeast 1), (vocal_acentuada, Once)],
      [(vocal, Once), (one_of ''n'', Once), (isspace, AtLeast 1), (vocal, Once)],
      [(vocal, Once), (one_of ''r'', Once), (isspace, AtLeast 1), (vocal, Once)]]"

definition problematic_finals :: "nat \<Rightarrow> bool" where
  "problematic_finals c \<longleftrightarrow> one_of ''sdrnl'' c"

text \<open>
  The dictionary that \<open>detect_spanish_features\<close> returns. Of the list of match objects
  under the key \<open>sinalefas\<close> only the length is kept. The complexity score is a float:
  the two counts are converted to floats, and the products with the literals 0.1 and
  0.02 and their sum are rounded, so that three sinalefas give the float above the
  literal 0.3 and not the number 3/10.
\<close>

record spanish_features =
  sinalefas :: nat
  finals :: "ustr list"
  total_chars :: nat
  estimated_syllables :: nat
  complexity_score :: real

definition detect_spanish_features ::
  "(ustr \<Rightarrow> ustr) \<Rightarrow> (nat \<Rightarrow> bool) \<Rightarrow> ustr \<Rightarrow> spanish_features" where
  "detect_spanish_features lower isword text =
     (let n_sinalefas =
            sum_list (map (\<lambda>pattern. count_matches pattern 0 (lower text)) sinalefa_patterns);
          words = findall_words isword (lower text);
          fin = filter (\<lambda>word. word \<noteq> [] \<and> problematic_finals (last word)) words;
          vowel_groups = count_matches [(vocal_acentuada, AtLeast 1)] 0 (lower text);
          sinalefa_factor = fl (fl (real n_sinalefas) * fl 0.1);
          finals_factor = fl (fl (real (length fin)) * fl 0.02)
      in \<lparr> sinalefas = n_sinalefas, finals = fin, total_chars = length text,
           estimated_syllables = max vowel_groups (length (split_whitespace text) * 2),
           complexity_score = min 1.0 (fl (sinalefa_factor + finals_factor)) \<rparr>)"

subsection \<open>Quality score\<close>

text \<open>
  Python's \<open>max(0, x)\<close> on a float that may be NaN: the result is \<open>x\<close> only when
  \<open>x > 0\<close> holds, which is false for NaN.
\<close>

definition max0 :: "real option \<Rightarrow> real" where
  "max0 x = (case x of None \<Rightarrow> 0 | Some v \<Rightarrow> if v > 0 then v else 0)"

text \<open>
  The three penalties that the \<open>try\<close> block of \<open>evaluate_audio_quality\<close> computes, in
  the order duration, energy, silence; \<open>None\<close> when the block raises an exception. The
  audio is the list of its samples. \<open>librosa_rms\<close> is \<open>librosa.feature.rms\<close>, which
  takes the samples, the frame length and the hop length and returns the frame energies;
  it is not part of the repository and is a parameter, \<open>None\<close> when it raises. The
  divisions by \<open>self.sample_rate\<close> and by \<open>expected_mid\<close> are divisions of Python
  numbers and raise \<open>ZeroDivisionError\<close> on a zero divisor; the other divisions are
  divisions of numpy numbers, which do not raise. The test of the complexity score
  against the literal 0.3 is the test of the floats; the durations and the penalties
  are the exact real numbers.
\<close>

definition quality_penalties ::
  "(ustr \<Rightarrow> ustr) \<Rightarrow> (nat \<Rightarrow> bool) \<Rightarrow> (real list \<Rightarrow> nat \<Rightarrow> nat \<Rightarrow> real list option)
     \<Rightarrow> generador \<Rightarrow> real list \<Rightarrow> ustr \<Rightarrow> (real \<times> real \<times> real) option" where
  "quality_penalties lower isword librosa_rms g audio text =
     (if sample_rate g = 0 then None
      else
        (let duration = real (length audio) / real (sample_rate g);
             spanish = detect_spanish_features lower isword text;
             complex = complexity_score spanish > fl 0.3;
             expected_min0 = real (length text) / 15 * min_duration_ratio (metrics g);
             expected_max0 = real (length text) / 8 * max_duration_ratio (metrics g);
             expected_min = (if complex then expected_min0 * 0.9 else expected_min0);
             expected_max = (if complex then expected_max0 * 1.2 else expected_max0);
             expected_mid = (expected_min + expected_max) / 2;
             rms = map_option sqrt (np_mean (map (\<lambda>x. x ^ 2) audio));
             frame_length = nat \<lfloor>0.025 * real (sample_rate g)\<rfloor>;
             hop_length = frame_length div 4
         in case librosa_rms audio frame_length hop_length of
              None \<Rightarrow> None
            | Some rms_frames \<Rightarrow>
                (let silence_ratio =
                       (if rms_frames = [] then None
                        else Some (real (length (filter
                                      (\<lambda>r. r < min_energy_threshold (metrics g)) rms_frames))
                                   / real (length rms_frames)))
                 in if expected_mid = 0 then None
                    else
                      Some (\<bar>duration - expected_mid\<bar> / expected_mid,
                            max0 (map_option
                                    (\<lambda>r. (min_energy_threshold (metrics g) - r)
                                           / min_energy_threshold (metrics g)) rms),
                            max0 (map_option
                                    (\<lambda>r. r - max_silence_ratio (metrics g)) silence_ratio)))))"

text \<open>\<open>evaluate_audio_quality\<close>: the weighted sum, or 999.0 after an exception.\<close>

definition evaluate_audio_quality ::
  "(ustr \<Rightarrow> ustr) \<Rightarrow> (nat \<Rightarrow> bool) \<Rightarrow> (real list \<Rightarrow> nat \<Rightarrow> nat \<Rightarrow> real list option)
     \<Rightarrow> generador \<Rightarrow> real list \<Rightarrow> ustr \<Rightarrow> real" where
  "evaluate_audio_quality lower isword librosa_rms g audio text =
     (case quality_penalties lower isword librosa_rms g audio text of
        None \<Rightarrow> 999.0
      | Some (duration_penalty, energy_penalty, silence_penalty) \<Rightarrow>
          2.0 * duration_penalty + 1.0 * energy_penalty + 1.0 * silence_penalty)"

text \<open>
  A frame analysis for examples: whatever the samples are, it reports a single frame of
  energy 1.
\<close>

definition one_loud_frame :: "real list \<Rightarrow> nat \<Rightarrow> nat \<Rightarrow> real list option" where
  "one_loud_frame audio frame_length hop_length = Some [1]"

subsection \<open>Cleaning the text for the engine\<close>

text \<open>
  The two patterns of \<open>_clean_text_simple\<close> that end in \<open>$\<close>, which matches at the end
  of the string and before a line feed that ends the string.

  \<open>\.(\s*\.)+$\<close>: a full stop, then the longest run of white space and full stops that
  ends in a full stop, which must not be empty and must reach the end.
\<close>

definition at_end :: "ustr \<Rightarrow> bool" where
  "at_end s \<longleftrightarrow> s = [] \<or> s = [10]"

definition puntos_finales_matcher :: matcher where
  "puntos_finales_matcher prev s =
     (case s of
        [] \<Rightarrow> None
      | c # r \<Rightarrow>
          if c = 46 then
            (let run = takeWhile (\<lambda>x. isspace x \<or> x = 46) r;
                 n = length run - length (takeWhile isspace (rev run))
             in if 0 < n \<and> at_end (drop n r) then Some (1 + n) else None)
          else None)"

text \<open>
  \<open>([.!?]){2,}$\<close>: a run of at least two final marks that reaches the end; the group
  holds the last of them.
\<close>

definition signos_finales_matcher :: matcher where
  "signos_finales_matcher prev s =
     (let run = length (takeWhile (one_of ''.!?'') s)
      in if 2 \<le> run \<and> at_end (drop run s) then Some run else None)"

text \<open>\<open>_clean_text_simple\<close>; the code point 34 is the double quote.\<close>

definition clean_text_simple :: "ustr \<Rightarrow> ustr" where
  "clean_text_simple text =
     (let s = strip text;
          s = re_sub (seq_matcher [(isspace, AtLeast 0), (one_of ''.'', Once),
                                   (isspace, AtLeast 0), (one_of ''.'', Once)])
                (\<lambda>m. ustr ''.'') s;
          s = re_sub (seq_matcher [(one_of ''.'', Once), (isspace, AtLeast 1),
                                   (one_of ''.'', Once)])
                (\<lambda>m. ustr ''.'') s;
          s = re_sub (seq_matcher [(isspace, AtLeast 2)]) (\<lambda>m. ustr '' '') s;
          s = re_sub (seq_matcher [(\<lambda>c. c = 34, Once), (isspace, AtLeast 0),
                                   (one_of ''.'', Once)])
                (\<lambda>m. ustr ''.'' @ [34]) s;
          s = re_sub puntos_finales_matcher (\<lambda>m. ustr ''.'') s;
          s = re_sub signos_finales_matcher (\<lambda>m. [last m]) s
      in strip s)"

subsection \<open>Generation with validation\<close>

text \<open>
  The peak normalisation \<open>wav / np.max(np.abs(wav)) * 0.9\<close>, applied when the peak is
  positive, of an audio that is not empty.
\<close>

definition normalizar :: "audio \<Rightarrow> audio" where
  "normalizar wav =
     (let peak = max_list (map abs wav)
      in if peak > 0 then map (\<lambda>x. x / peak * 0.9) wav else wav)"

text \<open>
  What the \<open>try\<close> block of one attempt meets. The synthesis engine \<open>f5tts.infer\<close> and
  the validation \<open>validate_audio_anti_truncation\<close>, which rests on \<open>librosa\<close>, are not
  modelled: their results are a parameter.
  \<^item> \<open>Devuelve wav is_valid\<close>: the engine returns the audio \<open>wav\<close> (empty for \<open>None\<close>
    or an empty array), and the validation of an audio that is not empty gives
    \<open>is_valid\<close>;
  \<^item> \<open>Interrupcion\<close>: \<open>KeyboardInterrupt\<close> is raised;
  \<^item> \<open>Excepcion\<close>: another exception is raised by the engine, whose message does not
    contain \<open>t must be strictly increasing or decreasing\<close>;
  \<^item> \<open>Error_motor r\<close>: an exception with that message is raised; \<open>r\<close> is the audio
    that one of the two fallbacks of the handler returns, or \<open>None\<close> when both fail and
    the handler raises \<open>SystemExit\<close>.
  Writing the audio file is taken to succeed.
\<close>

datatype evento = Devuelve audio bool | Interrupcion | Excepcion | Error_motor "audio option"

text \<open>
  The update of \<open>best_candidate\<close> with an invalid candidate: the pair of the audio and
  its score that is kept.
\<close>

definition mejor :: "(audio \<Rightarrow> real) \<Rightarrow> (audio \<times> real) option \<Rightarrow> audio \<Rightarrow> audio \<times> real" where
  "mejor calidad best_candidate wav =
     (let quality_score = calidad wav
      in case best_candidate of
           None \<Rightarrow> (wav, quality_score)
         | Some (b, s) \<Rightarrow> if quality_score < s then (wav, quality_score) else (b, s))"

text \<open>
  The condition \<open>self.fallback_after_attempts and attempt >= self.fallback_after_attempts\<close>:
  \<open>None\<close> and 0 are false.
\<close>

definition fallback_reached :: "int option \<Rightarrow> nat \<Rightarrow> bool" where
  "fallback_reached fallback attempt \<longleftrightarrow>
     (case fallback of None \<Rightarrow> False | Some f \<Rightarrow> f \<noteq> 0 \<and> int attempt \<ge> f)"

text \<open>
  The loop \<open>while True\<close> of \<open>generate_single_phrase_with_validation\<close>, from the attempt
  \<open>attempt\<close> on. \<open>motor\<close> gives what each attempt meets and \<open>calidad\<close> is
  \<open>evaluate_audio_quality\<close> on the text. The loop may run forever: the result is
  \<open>None\<close> when it does, and otherwise the audio returned or the exception raised.
\<close>

partial_function (option) intentar ::
  "(nat \<Rightarrow> evento) \<Rightarrow> (audio \<Rightarrow> real) \<Rightarrow> int option \<Rightarrow> nat \<Rightarrow> (audio \<times> real) option
     \<Rightarrow> (py_error + audio) option" where
  "intentar motor calidad fallback attempt best_candidate =
     (case motor attempt of
        Devuelve wav is_valid \<Rightarrow>
          if wav = [] then intentar motor calidad fallback (attempt + 1) best_candidate
          else if is_valid then Some (Inr (normalizar wav))
          else
            (let best = mejor calidad best_candidate wav
             in if fallback_reached fallback attempt then Some (Inr (normalizar (fst best)))
                else intentar motor calidad fallback (attempt + 1) (Some best))
      | Interrupcion \<Rightarrow> Some (Inl KeyboardInterrupt)
      | Excepcion \<Rightarrow>
          (case best_candidate of
             Some (b, s) \<Rightarrow>
               if attempt \<ge> 10 then Some (Inr (normalizar b))
               else intentar motor calidad fallback (attempt + 1) best_candidate
           | None \<Rightarrow> intentar motor calidad fallback (attempt + 1) best_candidate)
      | Error_motor r \<Rightarrow>
          (case r of Some wav \<Rightarrow> Some (Inr wav) | None \<Rightarrow> Some (Inl SystemExit)))"

text \<open>
  The parameters that the sentence is generated with: a short sentence, of fewer than 7
  words or fewer than 35 code points once cleaned, gets the more stable ones.
\<close>

definition parametros_frase :: "(nat \<Rightarrow> bool) \<Rightarrow> generador \<Rightarrow> ustr \<Rightarrow> generador" where
  "parametros_frase isword g text =
     (let text1 = clean_text_simple text;
          num_words = length (findall_words isword text1);
          short_phrase = num_words < 7 \<or> length text1 < 35
      in if short_phrase
         then g\<lparr> nfe_steps := 28, sway_sampling_coef := - 0.3, speed := 0.95 \<rparr>
         else g)"

text \<open>
  The score of an invalid candidate: \<open>evaluate_audio_quality\<close> on the cleaned text,
  with the parameters of the sentence in force.
\<close>

definition puntuacion ::
  "(ustr \<Rightarrow> ustr) \<Rightarrow> (nat \<Rightarrow> bool) \<Rightarrow> (real list \<Rightarrow> nat \<Rightarrow> nat \<Rightarrow> real list option)
     \<Rightarrow> generador \<Rightarrow> ustr \<Rightarrow> audio \<Rightarrow> real" where
  "puntuacion lower isword librosa_rms g text wav =
     evaluate_audio_quality lower isword librosa_rms (parametros_frase isword g text) wav
       (clean_text_simple text)"

text \<open>
  \<open>generate_single_phrase_with_validation\<close>. The engine \<open>motor\<close> sees the object with
  the parameters in force and the cleaned text. The result is \<open>None\<close> when the function
  never returns; otherwise it is what the function returns or raises, and the object
  after the \<open>finally\<close> block.
\<close>

definition generate_single_phrase_with_validation ::
  "(ustr \<Rightarrow> ustr) \<Rightarrow> (nat \<Rightarrow> bool) \<Rightarrow> (real list \<Rightarrow> nat \<Rightarrow> nat \<Rightarrow> real list option)
     \<Rightarrow> (generador \<Rightarrow> ustr \<Rightarrow> nat \<Rightarrow> evento) \<Rightarrow> generador \<Rightarrow> ustr
     \<Rightarrow> ((py_error + audio) \<times> generador) option" where
  "generate_single_phrase_with_validation lower isword librosa_rms motor g text =
     (let text1 = clean_text_simple text;
          original_nfe = nfe_steps g;
          original_sway = sway_sampling_coef g;
          original_speed = speed g;
          g1 = parametros_frase isword g text
      in case intentar (motor g1 text1) (puntuacion lower isword librosa_rms g text)
                (fallback_after_attempts g1) 1 None of
           None \<Rightarrow> None
         | Some result \<Rightarrow>
             Some (result,
                   g1\<lparr> nfe_steps := original_nfe, sway_sampling_coef := original_sway,
                       speed := original_speed \<rparr>))"

text \<open>
  For the statements about the loop. \<open>audio_de\<close> is the audio that an attempt
  returns. \<open>invalido\<close> holds of an attempt that gives an invalid candidate, an audio
  that is not empty and fails validation. \<open>hay_candidato m a\<close> holds when an attempt
  before \<open>a\<close> has given an invalid candidate, so that \<open>best_candidate\<close> is not \<open>None\<close>
  at attempt \<open>a\<close>.
\<close>

fun audio_de :: "evento \<Rightarrow> audio" where
  "audio_de (Devuelve wav is_valid) = wav"
| "audio_de Interrupcion = []"
| "audio_de Excepcion = []"
| "audio_de (Error_motor r) = []"

fun invalido :: "evento \<Rightarrow> bool" where
  "invalido (Devuelve wav is_valid) \<longleftrightarrow> wav \<noteq> [] \<and> \<not> is_valid"
| "invalido Interrupcion \<longleftrightarrow> False"
| "invalido Excepcion \<longleftrightarrow> False"
| "invalido (Error_motor r) \<longleftrightarrow> False"

definition hay_candidato :: "(nat \<Rightarrow> evento) \<Rightarrow> nat \<Rightarrow> bool" where
  "hay_candidato m a \<longleftrightarrow> list_ex (\<lambda>j. invalido (m j)) [1..<a]"

text \<open>
  \<open>reintenta N m a\<close>: with the ceiling \<open>N\<close>, the attempt \<open>a\<close> ends in
  \<open>attempt += 1\<close> and the loop goes on. That is so after an empty audio, after an
  invalid candidate when \<open>a\<close> is below the ceiling, and after an exception unless
  \<open>a\<close> is at least 10 and there is a candidate.
\<close>

definition reintenta :: "nat \<Rightarrow> (nat \<Rightarrow> evento) \<Rightarrow> nat \<Rightarrow> bool" where
  "reintenta N m a \<longleftrightarrow>
     (case m a of
        Devuelve wav is_valid \<Rightarrow> wav = [] \<or> (\<not> is_valid \<and> a < N)
      | Interrupcion \<Rightarrow> False
      | Excepcion \<Rightarrow> \<not> (10 \<le> a \<and> hay_candidato m a)
      | Error_motor r \<Rightarrow> False)"


text \<open>
  The value of \<open>best_candidate\<close> after the attempts 1 to \<open>a\<close>, when the loop has gone
  through all of them.
\<close>

fun mejor_hasta :: "(audio \<Rightarrow> real) \<Rightarrow> (nat \<Rightarrow> evento) \<Rightarrow> nat \<Rightarrow> (audio \<times> real) option" where
  "mejor_hasta calidad m 0 = None"
| "mejor_hasta calidad m (Suc a) =
     (if invalido (m (Suc a))
      then Some (mejor calidad (mejor_hasta calidad m a) (audio_de (m (Suc a))))
      else mejor_hasta calidad m a)"


definition motor_interrumpido :: "generador \<Rightarrow> ustr \<Rightarrow> nat \<Rightarrow> evento" where
  "motor_interrumpido g text attempt = Interrupcion"



section \<open>Facts about strings\<close>

text \<open>Evaluation of \<open>startswith\<close> one code point at a time.\<close>

lemma startswith_Nil: "startswith s [] \<longleftrightarrow> True"
  by (simp add: startswith_def)

lemma startswith_Nil_Cons: "startswith [] (p # ps) \<longleftrightarrow> False"
  by (simp add: startswith_def)

lemma startswith_Cons_Cons:
  "startswith (c # cs) (p # ps) \<longleftrightarrow> (if c = p then startswith cs ps else False)"
  by (simp add: startswith_def)

lemmas startswith_eval = startswith_Nil startswith_Nil_Cons startswith_Cons_Cons

lemma startswith_set: "startswith s p \<Longrightarrow> set p \<subseteq> set s"
  unfolding startswith_def by (metis set_take_subset)

lemma count_from_absent:
  assumes "c \<in> set p" "c \<notin> set s"
  shows "count_from p k s = 0"
  using assms(2)
proof (induction s arbitrary: k)
  case Nil
  then show ?case by simp
next
  case (Cons a s)
  have "\<not> startswith (a # s) p"
    using startswith_set [of "a # s" p] assms(1) Cons.prems by auto
  with Cons show ?case by simp
qed

lemma count_str_absent:
  assumes "c \<in> set p" "c \<notin> set s"
  shows "count_str s p = 0"
  using assms count_from_absent [OF assms] by (auto simp: count_str_def)

lemma count_from_contains:
  assumes "contains p s" "p \<noteq> []"
  shows "1 \<le> count_from p 0 s"
  using assms(1)
proof (induction s)
  case Nil
  with assms(2) show ?case by simp
next
  case (Cons a s)
  then show ?case by (cases "startswith (a # s) p") simp_all
qed

lemma count_str_contains: "contains p s \<Longrightarrow> 1 \<le> count_str s p"
  using count_from_contains [of p s] by (simp add: count_str_def)

lemma set_ascii_lower:
  "set (ascii_lower s) = (\<lambda>c. if 65 \<le> c \<and> c \<le> 90 then c + 32 else c) ` set s"
  by (simp add: ascii_lower_def)

section \<open>Facts about the rounding\<close>

declare bits.simps [simp del]

lemma bits_bounds: "0 < n \<Longrightarrow> 2 ^ (bits n - 1) \<le> n \<and> n < 2 ^ bits n"
proof (induction n rule: bits.induct)
  case (1 n)
  show ?case
  proof (cases "n div 2 = 0")
    case True
    with 1 have "n = 1" by (simp add: div_eq_0_iff) 
    then show ?thesis by (simp add: bits.simps)
  next
    case False
    then have p: "0 < n div 2" by simp
    from 1 have n0: "n \<noteq> 0" by simp
    from 1(1) [OF n0 p] have ih: "2 ^ (bits (n div 2) - 1) \<le> n div 2" "n div 2 < 2 ^ bits (n div 2)"
      by simp_all
    have b: "bits n = Suc (bits (n div 2))" using n0 by (subst bits.simps) simp
    have bp: "0 < bits (n div 2)" using p by (subst bits.simps) simp
    have "2 ^ (bits n - 1) = 2 * 2 ^ (bits (n div 2) - 1)"
      unfolding b using bp by (cases "bits (n div 2)") simp_all
    also have "\<dots> \<le> 2 * (n div 2)" using ih(1) by simp
    also have "\<dots> \<le> n" by simp
    finally have l: "2 ^ (bits n - 1) \<le> n" .
    have "n < 2 * (n div 2) + 2" by presburger
    also have "\<dots> \<le> 2 * 2 ^ bits (n div 2)" using ih(2) by simp
    finally have "n < 2 ^ bits n" unfolding b by simp
    with l show ?thesis by simp
  qed
qed

lemma binade_bounds:
  assumes "x \<noteq> 0"
  shows "2 powi binade x \<le> \<bar>x\<bar> \<and> \<bar>x\<bar> < 2 powi (binade x + 1)"
proof (cases "1 \<le> \<bar>x\<bar>")
  case True
  define ax where "ax = \<bar>x\<bar>"
  define n where "n = nat \<lfloor>ax\<rfloor>"
  have a1: "1 \<le> ax" using True by (simp add: ax_def)
  then have f1: "1 \<le> \<lfloor>ax\<rfloor>" by simp
  then have fn: "real n = of_int \<lfloor>ax\<rfloor>" by (simp add: n_def)
  have n1: "0 < n" using f1 by (simp add: n_def)
  have nx: "real n \<le> ax" "ax < real n + 1"
    unfolding fn by (rule of_int_floor_le, rule real_of_int_floor_add_one_gt)
  from bits_bounds [OF n1] have b: "2 ^ (bits n - 1) \<le> n" "n < 2 ^ bits n" by simp_all
  have bp: "0 < bits n" using n1 by (subst bits.simps) simp
  have e: "binade x = int (bits n - 1)" "binade x + 1 = int (bits n)"
    using True bp by (simp_all add: binade_def n_def ax_def)
  have "real (2 ^ (bits n - 1)) \<le> real n"
    using b(1) by (simp only: of_nat_le_iff)
  then have "(2::real) ^ (bits n - 1) \<le> real n" by simp
  then have l: "2 powi binade x \<le> ax"
    unfolding e(1) power_int_of_nat using nx(1) by (rule order_trans)
  have "n + 1 \<le> 2 ^ bits n" using b(2) by simp
  then have "real (n + 1) \<le> real (2 ^ bits n)" by (simp only: of_nat_le_iff)
  then have "real n + 1 \<le> 2 ^ bits n" by simp
  with nx(2) have "ax < 2 powi (binade x + 1)"
    unfolding e(2) power_int_of_nat by (rule less_le_trans)
  with l show ?thesis by (simp add: ax_def)
next
  case False
  define y where "y = 1 / \<bar>x\<bar>"
  have y1: "1 < y" using False assms by (simp add: y_def)
  define m where "m = nat (\<lceil>y\<rceil> - 1)"
  have c2: "2 \<le> \<lceil>y\<rceil>" using y1 by (simp add: le_ceiling_iff)
  then have fm: "real m = of_int \<lceil>y\<rceil> - 1" by (simp add: m_def)
  have m1: "0 < m" using c2 by (simp add: m_def)
  have my: "real m < y" "y \<le> real m + 1"
    unfolding fm using ceiling_correct [of y] by simp_all
  from bits_bounds [OF m1] have b: "2 ^ (bits m - 1) \<le> m" "m < 2 ^ bits m" by simp_all
  have bp: "0 < bits m" using m1 by (subst bits.simps) simp
  have e: "binade x = - int (bits m)"
    using False by (simp add: binade_def m_def y_def)
  have xy: "\<bar>x\<bar> = 1 / y" using assms by (simp add: y_def)
  have "m + 1 \<le> 2 ^ bits m" using b(2) by simp
  then have "real (m + 1) \<le> real (2 ^ bits m)" by (simp only: of_nat_le_iff)
  then have "real m + 1 \<le> 2 ^ bits m" by simp
  with my(2) have "y \<le> 2 ^ bits m" by (rule order_trans)
  then have "1 / 2 ^ bits m \<le> 1 / y" using y1 by (simp add: frac_le)
  then have l: "2 powi binade x \<le> \<bar>x\<bar>"
    unfolding e xy by (simp add: power_int_minus divide_inverse)
  have "real (2 ^ (bits m - 1)) \<le> real m"
    using b(1) by (simp only: of_nat_le_iff)
  then have "(2::real) ^ (bits m - 1) \<le> real m" by simp
  then have "2 ^ (bits m - 1) < y" using my(1) by (rule le_less_trans)
  then have "1 / y < 1 / 2 ^ (bits m - 1)" by (simp add: frac_less2)
  moreover have "binade x + 1 = - int (bits m - 1)" unfolding e using bp by simp
  ultimately have "\<bar>x\<bar> < 2 powi (binade x + 1)"
    unfolding xy by (simp add: power_int_minus divide_inverse)
  with l show ?thesis by simp
qed

lemma rne_error: "\<bar>real_of_int (rne y) - y\<bar> \<le> 1 / 2"
  unfolding rne_def Let_def by (simp; linarith)

lemma fl_0: "fl 0 = 0"
  by (simp add: fl_def)

lemma fl_error:
  assumes "2 powi (- 1022) \<le> \<bar>x\<bar>"
  shows "\<bar>fl x - x\<bar> \<le> \<bar>x\<bar> / 2 ^ 53"
proof -
  have x0: "x \<noteq> 0" using assms by auto
  define e where "e = binade x - 52"
  have be: "2 powi binade x \<le> \<bar>x\<bar>" "\<bar>x\<bar> < 2 powi (binade x + 1)"
    using binade_bounds [OF x0] by simp_all
  have "- 1022 \<le> binade x"
  proof (rule ccontr)
    assume "\<not> - 1022 \<le> binade x"
    then have "binade x + 1 \<le> - 1022" by simp
    then have "(2::real) powi (binade x + 1) \<le> 2 powi (- 1022)"
      by (rule power_int_increasing) simp
    with be(2) assms show False by linarith
  qed
  then have f: "fl x = of_int (rne (x / 2 powi e)) * 2 powi e"
    using x0 by (simp add: fl_def e_def max_def Let_def)
  have p: "(0::real) < 2 powi e" by simp
  have "\<bar>fl x - x\<bar> = \<bar>of_int (rne (x / 2 powi e)) - x / 2 powi e\<bar> * 2 powi e"
  proof -
    have "fl x - x = (of_int (rne (x / 2 powi e)) - x / 2 powi e) * 2 powi e"
      unfolding f using p by (simp add: field_simps)
    then show ?thesis using p by (simp add: abs_mult)
  qed
  also have "\<dots> \<le> (1 / 2) * 2 powi e"
    using rne_error [of "x / 2 powi e"] p by (intro mult_right_mono) simp_all
  also have "\<dots> = 2 powi binade x / 2 ^ 53"
  proof -
    have "(2::real) powi binade x = 2 powi (e + 52)" by (simp add: e_def)
    also have "\<dots> = 2 powi e * 2 ^ 52" by (simp add: power_int_add)
    finally show ?thesis by simp
  qed
  also have "\<dots> \<le> \<bar>x\<bar> / 2 ^ 53" using be(1) by (simp add: divide_right_mono)
  finally show ?thesis .
qed

text \<open>
  The relative error of a rounding is at most \<open>1 / 2 ^ 53\<close>, for the numbers of the
  sizes that the weights and the thresholds of the program have.
\<close>

lemma fl_bounds:
  assumes "x = 0 \<or> 1 / 1000 \<le> x"
  shows "x * (1 - 1 / 2 ^ 53) \<le> fl x" and "fl x \<le> x * (1 + 1 / 2 ^ 53)"
proof -
  have "x * (1 - 1 / 2 ^ 53) \<le> fl x \<and> fl x \<le> x * (1 + 1 / 2 ^ 53)"
  proof (cases "x = 0")
    case True
    then show ?thesis by (simp add: fl_0)
  next
    case False
    with assms have x: "1 / 1000 \<le> x" by simp
    have "(2::real) powi (- 1022) \<le> 2 powi (- 10)"
      by (rule power_int_increasing) simp_all
    also have "\<dots> \<le> 1 / 1000" by (simp add: power_int_minus)
    finally have "2 powi (- 1022) \<le> \<bar>x\<bar>" using x by simp
    from fl_error [OF this] have "\<bar>fl x - x\<bar> \<le> x / 2 ^ 53" using x by simp
    then have "fl x - x \<le> x / 2 ^ 53" "- (x / 2 ^ 53) \<le> fl x - x"
      by (simp_all only: abs_le_iff minus_diff_eq) linarith+
    then show ?thesis by (simp add: algebra_simps)
  qed
  then show "x * (1 - 1 / 2 ^ 53) \<le> fl x" and "fl x \<le> x * (1 + 1 / 2 ^ 53)" by simp_all
qed

text \<open>
  The literal 0.1, the literal 0.3 and the product \<open>3 * 0.1\<close>, which is above the
  literal 0.3.
\<close>

lemma fl_tenth: "fl 0.1 = 7205759403792794 / 2 ^ 56"
  by (simp add: fl_def binade_def rne_def bits.simps Let_def power_int_minus)

lemma fl_three_tenths_pos: "0 < fl 0.3"
  by (simp add: fl_def binade_def rne_def bits.simps Let_def power_int_minus)

lemma fl_three_tenths: "fl 0.3 < fl (3 * fl 0.1)"
  by (simp add: fl_def binade_def rne_def bits.simps Let_def power_int_minus)

section \<open>Properties of the narrative arc\<close>

lemma arco_factor_rise:
  "i < c \<Longrightarrow> arco_factor cfg N c i = 1 + (real i / real c) * desarrollo_peak cfg"
  by (simp add: arco_factor_def)

lemma arco_factor_peak: "arco_factor cfg N c c = 1 + desarrollo_peak cfg"
  by (simp add: arco_factor_def)

lemma arco_factor_descent:
  assumes "c < i" "i < N"
  shows "arco_factor cfg N c i
           = (1 + desarrollo_peak cfg)
             - (desarrollo_peak cfg - cierre_drop cfg)
               * ((real i - real c) / (real N - real c - 1))"
proof -
  have d: "int N - int c - 1 > 0" using assms by simp
  have r: "real_of_int (int N - int c - 1) = real N - real c - 1" by simp
  have "arco_factor cfg N c i
          = (1 + desarrollo_peak cfg) * (1 - (real i - real c) / (real N - real c - 1))
            + (1 + cierre_drop cfg) * ((real i - real c) / (real N - real c - 1))"
    using assms d unfolding arco_factor_def Let_def r by simp
  then show ?thesis by (simp only: algebra_simps)
qed

lemma arco_factor_before:
  assumes "i \<le> j" "j \<le> c" "0 \<le> desarrollo_peak cfg"
  shows "arco_factor cfg N c i \<le> arco_factor cfg N c j"
proof (cases "j < c")
  case True
  with assms have ic: "i < c" and c0: "0 < real c" by simp_all
  have "real i / real c \<le> real j / real c"
    using assms(1) c0 by (simp add: divide_right_mono)
  then have "(real i / real c) * desarrollo_peak cfg \<le> (real j / real c) * desarrollo_peak cfg"
    using assms(3) by (rule mult_right_mono)
  then show ?thesis
    by (simp only: arco_factor_rise [OF True] arco_factor_rise [OF ic] add_left_mono)
next
  case False
  with assms have jc: "j = c" by simp
  show ?thesis
  proof (cases "i < c")
    case True
    then have "real i / real c \<le> 1" by simp
    then have "(real i / real c) * desarrollo_peak cfg \<le> 1 * desarrollo_peak cfg"
      using assms(3) by (rule mult_right_mono)
    then show ?thesis
      unfolding jc arco_factor_peak arco_factor_rise [OF True] by simp
  next
    case False
    with assms jc have "i = j" by simp
    then show ?thesis by simp
  qed
qed

lemma arco_factor_after:
  assumes "c \<le> i" "i \<le> j" "j < N" "cierre_drop cfg \<le> desarrollo_peak cfg"
  shows "arco_factor cfg N c j \<le> arco_factor cfg N c i"
proof -
  define d where "d = desarrollo_peak cfg - cierre_drop cfg"
  have d0: "0 \<le> d" using assms(4) by (simp add: d_def)
  show ?thesis
  proof (cases "c < i")
    case True
    with assms have cj: "c < j" and iN: "i < N" by simp_all
    have pos: "0 < real N - real c - 1" using cj assms(3) by linarith
    have "(real i - real c) / (real N - real c - 1) \<le> (real j - real c) / (real N - real c - 1)"
      using assms(2) pos by (simp add: divide_right_mono)
    then have "d * ((real i - real c) / (real N - real c - 1))
                 \<le> d * ((real j - real c) / (real N - real c - 1))"
      using d0 by (rule mult_left_mono)
    then show ?thesis
      unfolding arco_factor_descent [OF True iN] arco_factor_descent [OF cj assms(3)] d_def
      by linarith
  next
    case False
    with assms have ic: "i = c" by simp
    show ?thesis
    proof (cases "c < j")
      case True
      have pos: "0 < real N - real c - 1" using True assms(3) by linarith
      have "0 \<le> (real j - real c) / (real N - real c - 1)"
        using True pos by simp
      then have "0 \<le> d * ((real j - real c) / (real N - real c - 1))"
        using d0 by (rule mult_nonneg_nonneg [rotated])
      then show ?thesis
        unfolding ic arco_factor_peak arco_factor_descent [OF True assms(3)] d_def
        by linarith
    next
      case False
      with assms ic have "j = i" by simp
      then show ?thesis by simp
    qed
  qed
qed

text \<open>
  Claim C5. For every paragraph count \<open>N\<close> and every centre index \<open>c\<close> in \<open>0..N-1\<close>,
  the list returned by \<open>_generar_arco_narrativo\<close> has one factor per paragraph, is
  non-decreasing over the indices up to the centre and non-increasing over the indices
  from the centre on.
\<close>

theorem generar_arco_narrativo_monotone:
  assumes "c < N"
  shows "length (generar_arco_narrativo configuracion_arco_global N c) = N
       \<and> (\<forall>i j. i \<le> j \<and> j \<le> c \<longrightarrow>
            generar_arco_narrativo configuracion_arco_global N c ! i
              \<le> generar_arco_narrativo configuracion_arco_global N c ! j)
       \<and> (\<forall>i j. c \<le> i \<and> i \<le> j \<and> j < N \<longrightarrow>
            generar_arco_narrativo configuracion_arco_global N c ! j
              \<le> generar_arco_narrativo configuracion_arco_global N c ! i)"
proof (intro conjI allI impI)
  show "length (generar_arco_narrativo configuracion_arco_global N c) = N"
    by (simp add: generar_arco_narrativo_def)
next
  fix i j assume h: "i \<le> j \<and> j \<le> c"
  with assms have "i < N" "j < N" by simp_all
  then show "generar_arco_narrativo configuracion_arco_global N c ! i
              \<le> generar_arco_narrativo configuracion_arco_global N c ! j"
    using h by (simp add: generar_arco_narrativo_def arco_factor_before configuracion_arco_global_def)
next
  fix i j assume h: "c \<le> i \<and> i \<le> j \<and> j < N"
  then have "i < N" "j < N" by simp_all
  then show "generar_arco_narrativo configuracion_arco_global N c ! j
              \<le> generar_arco_narrativo configuracion_arco_global N c ! i"
    using h by (simp add: generar_arco_narrativo_def arco_factor_after configuracion_arco_global_def)
qed

theorem generar_arco_narrativo_monotone_witness:
  "(2::nat) < 5
   \<and> generar_arco_narrativo configuracion_arco_global 5 2 ! 0
       \<le> generar_arco_narrativo configuracion_arco_global 5 2 ! 1
   \<and> generar_arco_narrativo configuracion_arco_global 5 2 ! 4
       \<le> generar_arco_narrativo configuracion_arco_global 5 2 ! 3"
proof -
  have h: "(2::nat) < 5" by simp
  from generar_arco_narrativo_monotone [OF h]
  have a: "generar_arco_narrativo configuracion_arco_global 5 2 ! 0
             \<le> generar_arco_narrativo configuracion_arco_global 5 2 ! 1"
    and b: "generar_arco_narrativo configuracion_arco_global 5 2 ! 4
             \<le> generar_arco_narrativo configuracion_arco_global 5 2 ! 3"
    by simp_all
  from h a b show ?thesis by simp
qed

section \<open>Properties of the pause assignment\<close>

lemma calcular_pausa_transicion_range:
  assumes "calcular_pausa_transicion lower frase j tot todas ult = Inr pausa"
  shows "0.2 \<le> pausa \<and> pausa \<le> 3.0"
proof -
  obtain aj :: "py_error + real" where
    aj: "calcular_pausa_transicion lower frase j tot todas ult
           = (case aj of Inl e \<Rightarrow> Inl e | Inr p \<Rightarrow> Inr (min (max p 0.2) 3.0))"
    unfolding calcular_pausa_transicion_def Let_def by blast
  show ?thesis
  proof (cases aj)
    case (Inl e)
    with aj assms show ?thesis by simp
  next
    case (Inr q)
    with aj assms have "pausa = min (max q 0.2) 3.0" by simp
    then show ?thesis by simp
  qed
qed

lemma calcular_pausa_transicion_returns:
  assumes "tot = length todas"
  shows "\<exists>pausa. calcular_pausa_transicion lower frase j tot todas ult = Inr pausa"
proof -
  have idx: "int j < int tot - 1 \<Longrightarrow> j + 1 < length todas"
    using assms by simp
  show ?thesis
  proof (cases "int j = int tot - 1")
    case True
    then show ?thesis
      unfolding calcular_pausa_transicion_def Let_def by (cases ult) simp_all
  next
    case ne: False
    show ?thesis
    proof (cases "int j < int tot - 1")
      case True
      with ne idx show ?thesis
        unfolding calcular_pausa_transicion_def Let_def
        by (cases "detectar_tipo_transicion lower frase (todas ! (j + 1))") simp_all
    next
      case False
      with ne show ?thesis
        unfolding calcular_pausa_transicion_def Let_def by simp
    qed
  qed
qed

text \<open>
  Claim C6. Whatever the sentence, its position and the following sentences are, a pause
  returned by \<open>_calcular_pausa_transicion\<close> lies in the interval from 0.2 to 3.0
  seconds; and the function does return a pause whenever \<open>total_frases\<close> is the length
  of \<open>todas_frases\<close>, which is how \<open>_procesar_frase_individual\<close> calls it.
\<close>

theorem calcular_pausa_transicion_clamped:
  "(tot = length todas \<longrightarrow>
      (\<exists>pausa. calcular_pausa_transicion lower frase j tot todas ult = Inr pausa))
   \<and> (\<forall>pausa. calcular_pausa_transicion lower frase j tot todas ult = Inr pausa \<longrightarrow>
         0.2 \<le> pausa \<and> pausa \<le> 3.0)"
proof (intro conjI impI allI)
  assume "tot = length todas"
  then show "\<exists>pausa. calcular_pausa_transicion lower frase j tot todas ult = Inr pausa"
    by (rule calcular_pausa_transicion_returns)
next
  fix pausa
  assume "calcular_pausa_transicion lower frase j tot todas ult = Inr pausa"
  then show "0.2 \<le> pausa" "pausa \<le> 3.0"
    using calcular_pausa_transicion_range by blast+
qed

text \<open>
  The last sentence of a document, \<open>Fin.\<close>: the base pause 0.8 is doubled to 1.6, which
  the clamp leaves as it is.
\<close>

theorem calcular_pausa_transicion_clamped_witness:
  "(1::nat) = length [ustr ''Fin.'']
   \<and> calcular_pausa_transicion ascii_lower (ustr ''Fin.'') 0 1 [ustr ''Fin.''] True = Inr 1.6
   \<and> (0.2::real) \<le> 1.6 \<and> (1.6::real) \<le> 3.0"
proof -
  have v: "calcular_pausa_transicion ascii_lower (ustr ''Fin.'') 0 1 [ustr ''Fin.''] True
             = Inr 1.6"
    by (simp add: calcular_pausa_transicion_def pausa_base_puntuacion_def endswith_def
        strip_def lstrip_def rstrip_def isspace_def ustr_def)
  have l: "(1::nat) = length [ustr ''Fin.'']" by simp
  have b: "(0.2::real) \<le> 1.6 \<and> (1.6::real) \<le> 3.0"
    using calcular_pausa_transicion_clamped
      [of 1 "[ustr ''Fin.'']" ascii_lower "ustr ''Fin.''" 0 True] v
    by blast
  from l v b show ?thesis by blast
qed

section \<open>Properties of the dramatic centre\<close>

text \<open>The position test for a document of three paragraphs.\<close>

lemma posicion_three:
  "\<not> fl 0.3 \<le> fl 0"
  "fl 0.3 \<le> fl (1 / 3) \<and> fl (1 / 3) \<le> fl 0.8"
  "fl 0.3 \<le> fl (2 / 3) \<and> fl (2 / 3) \<le> fl 0.8"
  by (simp_all add: fl_def binade_def rne_def bits.simps Let_def power_int_minus)

text \<open>
  The rounded weight is within \<open>1 / 10 ^ 15\<close> of the exact one, relatively, before and
  after the multiplication by 1.2.
\<close>

lemma peso_cota:
  fixes h A :: real
  assumes h: "h = 0 \<or> 1 \<le> h" and A: "A = 0 \<or> 1 / 100 \<le> A"
  shows "(h + A) * (1 - 1 / 10 ^ 15) \<le> fl (fl h + fl A)"
    and "fl (fl h + fl A) \<le> (h + A) * (1 + 1 / 10 ^ 15)"
    and "(h + A) * 1.2 * (1 - 1 / 10 ^ 15) \<le> fl (fl (fl h + fl A) * fl 1.2)"
    and "fl (fl (fl h + fl A) * fl 1.2) \<le> (h + A) * 1.2 * (1 + 1 / 10 ^ 15)"
proof -
  define s where "s = fl h + fl A"
  define peso where "peso = fl s"
  define c where "c = fl 1.2"
  define t where "t = peso * c"
  have h0: "0 \<le> h" and A0: "0 \<le> A" using h A by auto
  have h1: "h = 0 \<or> 1 / 1000 \<le> h" and A1: "A = 0 \<or> 1 / 1000 \<le> A"
    using h A by auto
  have fh: "h * (1 - 1 / 2 ^ 53) \<le> fl h" "fl h \<le> h * (1 + 1 / 2 ^ 53)"
    using h1 by (rule fl_bounds)+
  have fa: "A * (1 - 1 / 2 ^ 53) \<le> fl A" "fl A \<le> A * (1 + 1 / 2 ^ 53)"
    using A1 by (rule fl_bounds)+
  have s0: "s = 0 \<or> 1 / 200 \<le> s"
  proof (cases "h = 0 \<and> A = 0")
    case True
    then show ?thesis by (simp add: s_def fl_0)
  next
    case False
    with h A have "1 / 100 \<le> h + A" using h0 A0 by auto
    with fh(1) fa(1) have "1 / 200 \<le> s" unfolding s_def by simp
    then show ?thesis ..
  qed
  then have s1: "s = 0 \<or> 1 / 1000 \<le> s" by auto
  have fs: "s * (1 - 1 / 2 ^ 53) \<le> peso" "peso \<le> s * (1 + 1 / 2 ^ 53)"
    unfolding peso_def using s1 by (rule fl_bounds)+
  have p0: "peso = 0 \<or> 1 / 400 \<le> peso"
    using s0 fs(1) by (auto simp: peso_def fl_0)
  then have pn: "0 \<le> peso" by auto
  have fc: "1.2 * (1 - 1 / 2 ^ 53) \<le> c" "c \<le> 1.2 * (1 + 1 / 2 ^ 53)"
    unfolding c_def using fl_bounds [of "1.2"] by simp_all
  have ft: "peso * (1.2 * (1 - 1 / 2 ^ 53)) \<le> t" "t \<le> peso * (1.2 * (1 + 1 / 2 ^ 53))"
    unfolding t_def by (rule mult_left_mono [OF fc(1) pn], rule mult_left_mono [OF fc(2) pn])
  have t1: "t = 0 \<or> 1 / 1000 \<le> t"
  proof (cases "peso = 0")
    case True
    then show ?thesis by (simp add: t_def)
  next
    case False
    with p0 have "1 / 400 \<le> peso" by simp
    with ft(1) have "1 / 1000 \<le> t" by simp
    then show ?thesis ..
  qed
  have fft: "t * (1 - 1 / 2 ^ 53) \<le> fl t" "fl t \<le> t * (1 + 1 / 2 ^ 53)"
    using t1 by (rule fl_bounds)+
  show "(h + A) * (1 - 1 / 10 ^ 15) \<le> fl (fl h + fl A)"
    using fh(1) fa(1) fs(1) h0 A0 unfolding peso_def s_def by simp
  show "fl (fl h + fl A) \<le> (h + A) * (1 + 1 / 10 ^ 15)"
    using fh(2) fa(2) fs(2) h0 A0 unfolding peso_def s_def by simp
  show "(h + A) * 1.2 * (1 - 1 / 10 ^ 15) \<le> fl (fl (fl h + fl A) * fl 1.2)"
    using fh(1) fa(1) fs(1) ft(1) fft(1) h0 A0 unfolding t_def peso_def s_def c_def by simp
  show "fl (fl (fl h + fl A) * fl 1.2) \<le> (h + A) * 1.2 * (1 + 1 / 10 ^ 15)"
    using fh(2) fa(2) fs(2) ft(2) fft(2) h0 A0 unfolding t_def peso_def s_def c_def by simp
qed

text \<open>
  The weights of the three paragraphs of a document, against the exact value of the
  semantic weight plus the length over 100.
\<close>

lemma peso_parrafo_three_eq:
  "peso_parrafo lower 3 0 p
     = fl (fl (real (peso_semantico lower p)) + fl (real (length p) / 100))"
  "peso_parrafo lower 3 1 p
     = fl (fl (fl (real (peso_semantico lower p)) + fl (real (length p) / 100)) * fl 1.2)"
  "peso_parrafo lower 3 2 p
     = fl (fl (fl (real (peso_semantico lower p)) + fl (real (length p) / 100)) * fl 1.2)"
  unfolding peso_parrafo_def Let_def using posicion_three by simp_all

lemma peso_parrafo_three:
  fixes lower p
  defines "w \<equiv> real (peso_semantico lower p) + real (length p) / 100"
  shows "w * (1 - 1 / 10 ^ 15) \<le> peso_parrafo lower 3 0 p"
    and "peso_parrafo lower 3 0 p \<le> w * (1 + 1 / 10 ^ 15)"
    and "w * 1.2 * (1 - 1 / 10 ^ 15) \<le> peso_parrafo lower 3 1 p"
    and "peso_parrafo lower 3 1 p \<le> w * 1.2 * (1 + 1 / 10 ^ 15)"
    and "w * 1.2 * (1 - 1 / 10 ^ 15) \<le> peso_parrafo lower 3 2 p"
    and "peso_parrafo lower 3 2 p \<le> w * 1.2 * (1 + 1 / 10 ^ 15)"
proof -
  have h: "real (peso_semantico lower p) = 0 \<or> 1 \<le> real (peso_semantico lower p)"
    by (cases "peso_semantico lower p") simp_all
  have A: "real (length p) / 100 = 0 \<or> 1 / 100 \<le> real (length p) / 100"
    by (cases "length p") simp_all
  show "w * (1 - 1 / 10 ^ 15) \<le> peso_parrafo lower 3 0 p"
    unfolding w_def peso_parrafo_three_eq using h A by (rule peso_cota)
  show "peso_parrafo lower 3 0 p \<le> w * (1 + 1 / 10 ^ 15)"
    unfolding w_def peso_parrafo_three_eq using h A by (rule peso_cota)
  show "w * 1.2 * (1 - 1 / 10 ^ 15) \<le> peso_parrafo lower 3 1 p"
    unfolding w_def peso_parrafo_three_eq using h A by (rule peso_cota)
  show "peso_parrafo lower 3 1 p \<le> w * 1.2 * (1 + 1 / 10 ^ 15)"
    unfolding w_def peso_parrafo_three_eq using h A by (rule peso_cota)
  show "w * 1.2 * (1 - 1 / 10 ^ 15) \<le> peso_parrafo lower 3 2 p"
    unfolding w_def peso_parrafo_three_eq using h A by (rule peso_cota)
  show "peso_parrafo lower 3 2 p \<le> w * 1.2 * (1 + 1 / 10 ^ 15)"
    unfolding w_def peso_parrafo_three_eq using h A by (rule peso_cota)
qed

lemma pesos_three:
  "map (\<lambda>(i, parrafo). peso_parrafo lower (length [p0, p1, p2]) i parrafo)
     (enumerate 0 [p0, p1, p2])
   = [peso_parrafo lower 3 0 p0, peso_parrafo lower 3 1 p1, peso_parrafo lower 3 2 p2]"
proof -
  have three: "length [p0, p1, p2] = 3" by simp
  have e: "enumerate 0 [p0, p1, p2] = [(0, p0), (1, p1), (2, p2)]"
    by (simp add: numeral_2_eq_2)
  show ?thesis
    unfolding three e list.map prod.case ..
qed

lemma peso_semantico_sin_embargo:
  assumes "contains (ustr ''sin embargo'') (lower p)"
  shows "3 \<le> peso_semantico lower p"
proof -
  have "1 \<le> count_str (lower p) (ustr ''sin embargo'')"
    using assms by (rule count_str_contains)
  then show ?thesis
    unfolding peso_semantico_def Let_def indicadores_peso_def giros_def by simp
qed

lemma centro_of_pesos:
  fixes w0 w1 w2 :: real
  shows "w1 \<le> w0 \<Longrightarrow> w2 \<le> w0 \<Longrightarrow> index_of [w0, w1, w2] (max_list [w0, w1, w2]) = 0"
    and "w0 < w1 \<Longrightarrow> w2 \<le> w1 \<Longrightarrow> index_of [w0, w1, w2] (max_list [w0, w1, w2]) = 1"
    and "w0 < w2 \<Longrightarrow> w1 < w2 \<Longrightarrow> index_of [w0, w1, w2] (max_list [w0, w1, w2]) = 2"
  by (simp_all add: max_list_def max_def index_of_def)

text \<open>
  Claim C4, as amended. In a document of three paragraphs where the second paragraph
  contains \<open>sin embargo\<close> and has at most \<open>10 ^ 12\<close> code points, the first and the
  third contain no indicator of the five categories, the third is fewer than 300 code
  points longer than the second and the first is shorter than 1.2 times the length of
  the second plus 300, the dramatic centre is the paragraph at index 1.
\<close>

theorem calcular_centro_dramatico_sin_embargo:
  assumes "contains (ustr ''sin embargo'') (lower p1)"
    and "peso_semantico lower p0 = 0" and "peso_semantico lower p2 = 0"
    and "length p2 < length p1 + 300"
    and "5 * length p0 < 6 * (length p1 + 300)"
    and "length p1 \<le> 10 ^ 12"
  shows "calcular_centro_dramatico lower [p0, p1, p2] = Inr 1"
proof -
  define h where "h = real (peso_semantico lower p1)"
  define A0 where "A0 = real (length p0) / 100"
  define A1 where "A1 = real (length p1) / 100"
  define A2 where "A2 = real (length p2) / 100"
  have h: "3 \<le> h"
    using peso_semantico_sin_embargo [of lower p1, OF assms(1)] by (simp add: h_def)
  have "length p2 + 1 \<le> length p1 + 300" using assms(4) by simp
  then have "real (length p2 + 1) \<le> real (length p1 + 300)" by (simp only: of_nat_le_iff)
  then have "real (length p2) + 1 \<le> real (length p1) + 300" by simp
  then have l2: "A2 \<le> A1 + 299 / 100" unfolding A1_def A2_def by (simp add: algebra_simps)
  have "5 * length p0 + 1 \<le> 6 * (length p1 + 300)" using assms(5) by simp
  then have "real (5 * length p0 + 1) \<le> real (6 * (length p1 + 300))"
    by (simp only: of_nat_le_iff)
  then have "5 * real (length p0) + 1 \<le> 6 * (real (length p1) + 300)" by simp
  then have l0: "A0 \<le> 1.2 * (A1 + 3) - 1 / 500" unfolding A0_def A1_def by (simp add: algebra_simps)
  have "real (length p1) \<le> real (10 ^ 12)" using assms(6) by (simp only: of_nat_le_iff)
  then have l1: "A1 \<le> 10 ^ 10" by (simp add: A1_def)
  have n: "0 \<le> A0" "0 \<le> A1" "0 \<le> A2" by (simp_all add: A0_def A1_def A2_def)
  have b0: "peso_parrafo lower 3 0 p0 \<le> A0 * (1 + 1 / 10 ^ 15)"
    using peso_parrafo_three(2) [of lower p0] by (simp add: assms(2) A0_def)
  have b1: "(h + A1) * 1.2 * (1 - 1 / 10 ^ 15) \<le> peso_parrafo lower 3 1 p1"
    unfolding h_def A1_def by (rule peso_parrafo_three)
  have b2: "peso_parrafo lower 3 2 p2 \<le> A2 * 1.2 * (1 + 1 / 10 ^ 15)"
    using peso_parrafo_three(6) [of lower p2] by (simp add: assms(3) A2_def)
  have a: "peso_parrafo lower 3 0 p0 < peso_parrafo lower 3 1 p1"
    using b0 b1 l0 l1 h n by simp argo
  have b: "peso_parrafo lower 3 2 p2 \<le> peso_parrafo lower 3 1 p1"
    using b2 b1 l2 l1 h n by simp
  show ?thesis
    unfolding calcular_centro_dramatico_def Let_def pesos_three
    using centro_of_pesos(2) [OF a b] by simp
qed

lemmas indicadores_defs =
  indicadores_peso_def giros_def importancia_def conclusiones_def contraste_def
  causalidad_def

lemma peso_semantico_absent:
  assumes "\<forall>pal \<in> set (concat (map snd indicadores_peso)). \<exists>c \<in> set pal. c \<notin> set (lower p)"
  shows "peso_semantico lower p = 0"
proof -
  have "count_str (lower p) pal = 0" if "pal \<in> set (concat (map snd indicadores_peso))" for pal
    using assms that count_str_absent by blast
  then show ?thesis
    unfolding peso_semantico_def Let_def by (simp add: indicadores_defs)
qed

lemma peso_semantico_llegaron:
  "peso_semantico ascii_lower (ustr ''Llegaron al alba.'') = 0"
  by (simp add: ustr_def peso_semantico_def ascii_lower_def indicadores_defs count_str_def
      startswith_eval)

lemma peso_semantico_luego:
  "peso_semantico ascii_lower (ustr ''Luego se fue a casa.'') = 0"
  by (simp add: ustr_def peso_semantico_def ascii_lower_def indicadores_defs count_str_def
      startswith_eval)

lemma peso_semantico_nadie:
  "peso_semantico ascii_lower (ustr ''Sin embargo, no vino nadie.'') = 3"
  by (simp add: ustr_def peso_semantico_def ascii_lower_def indicadores_defs count_str_def
      startswith_eval)

lemma peso_semantico_importante:
  "peso_semantico ascii_lower (ustr ''Es importante, crucial, esencial y fundamental.'') = 8"
  by (simp add: ustr_def peso_semantico_def ascii_lower_def indicadores_defs count_str_def
      startswith_eval)

lemma peso_semantico_casa:
  "peso_semantico ascii_lower
     (ustr ''Sin embargo, no vino nadie a la casa, y el tren de la tarde no sale hoy.'') = 3"
  by (simp add: ustr_def peso_semantico_def ascii_lower_def indicadores_defs count_str_def
      startswith_eval)

lemma peso_semantico_tren:
  "peso_semantico ascii_lower
     (concat (replicate 10 (ustr ''El tren sale hoy y vuelve luego. '')) @ ustr ''Ya.'') = 0"
proof (rule peso_semantico_absent)
  have s: "set (ascii_lower
             (concat (replicate 10 (ustr ''El tren sale hoy y vuelve luego. ''))
                @ ustr ''Ya.''))
           = set (ustr ''el tren sale hoy y vuelve luego. ya.'')"
    unfolding set_ascii_lower by (auto simp: ustr_def)
  show "\<forall>pal \<in> set (concat (map snd indicadores_peso)).
          \<exists>c \<in> set pal. c \<notin> set (ascii_lower
            (concat (replicate 10 (ustr ''El tren sale hoy y vuelve luego. ''))
               @ ustr ''Ya.''))"
    unfolding s by (simp add: indicadores_defs ustr_def)
qed

lemma peso_semantico_tren_va:
  "peso_semantico ascii_lower
     (concat (replicate 11 (ustr ''El tren sale hoy y vuelve luego. '')) @ ustr ''Ya se va.'')
   = 0"
proof (rule peso_semantico_absent)
  have s: "set (ascii_lower
             (concat (replicate 11 (ustr ''El tren sale hoy y vuelve luego. ''))
                @ ustr ''Ya se va.''))
           = set (ustr ''el tren sale hoy y vuelve luego. ya.'')"
    unfolding set_ascii_lower by (auto simp: ustr_def)
  show "\<forall>pal \<in> set (concat (map snd indicadores_peso)).
          \<exists>c \<in> set pal. c \<notin> set (ascii_lower
            (concat (replicate 11 (ustr ''El tren sale hoy y vuelve luego. ''))
               @ ustr ''Ya se va.''))"
    unfolding s by (simp add: indicadores_defs ustr_def)
qed

text \<open>
  The amended claim at \<open>documento_breve\<close>, whose paragraphs have 17, 27 and 20 code
  points.
\<close>

theorem calcular_centro_dramatico_sin_embargo_witness:
  "contains (ustr ''sin embargo'') (ascii_lower (ustr ''Sin embargo, no vino nadie.''))
   \<and> peso_semantico ascii_lower (ustr ''Llegaron al alba.'') = 0
   \<and> peso_semantico ascii_lower (ustr ''Luego se fue a casa.'') = 0
   \<and> length (ustr ''Luego se fue a casa.'')
       < length (ustr ''Sin embargo, no vino nadie.'') + 300
   \<and> 5 * length (ustr ''Llegaron al alba.'')
       < 6 * (length (ustr ''Sin embargo, no vino nadie.'') + 300)
   \<and> length (ustr ''Sin embargo, no vino nadie.'') \<le> 10 ^ 12
   \<and> calcular_centro_dramatico ascii_lower documento_breve = Inr 1"
proof -
  have c: "contains (ustr ''sin embargo'') (ascii_lower (ustr ''Sin embargo, no vino nadie.''))"
    by (simp add: ustr_def ascii_lower_def startswith_eval)
  have l2: "length (ustr ''Luego se fue a casa.'')
              < length (ustr ''Sin embargo, no vino nadie.'') + 300"
    by (simp add: ustr_def)
  have l0: "5 * length (ustr ''Llegaron al alba.'')
              < 6 * (length (ustr ''Sin embargo, no vino nadie.'') + 300)"
    by (simp add: ustr_def)
  have l1: "length (ustr ''Sin embargo, no vino nadie.'') \<le> 10 ^ 12"
    by (simp add: ustr_def)
  have "calcular_centro_dramatico ascii_lower documento_breve = Inr 1"
    unfolding documento_breve_def
    using c peso_semantico_llegaron peso_semantico_luego l2 l0 l1
    by (rule calcular_centro_dramatico_sin_embargo)
  with c peso_semantico_llegaron peso_semantico_luego l2 l0 l1 show ?thesis by blast
qed

text \<open>
  Claim C4 as stated fails. In both documents the second paragraph is the only one with
  a contrast connective, \<open>sin embargo\<close>. In \<open>documento_importancia\<close> the four importance
  markers of the first paragraph weigh 8 against 3, and the centre is index 0; in
  \<open>documento_largo\<close> no other indicator occurs, the length of the third paragraph
  weighs 3.33 against 3.27, and the centre is index 2.
\<close>

theorem calcular_centro_dramatico_counterexample:
  "map (\<lambda>p. list_ex (\<lambda>g. contains g (ascii_lower p)) giros) documento_importancia
     = [False, True, False]
   \<and> calcular_centro_dramatico ascii_lower documento_importancia = Inr 0
   \<and> map (\<lambda>p. list_ex (\<lambda>g. contains g (ascii_lower p)) giros) documento_largo
       = [False, True, False]
   \<and> map (peso_semantico ascii_lower) documento_largo = [0, 3, 0]
   \<and> calcular_centro_dramatico ascii_lower documento_largo = Inr 2"
proof (intro conjI)
  have no_count: "\<not> contains g s" if "count_str s g = 0" for g s
    using that count_str_contains [of g s] by auto
  have giros_sub: "set giros \<subseteq> set (concat (map snd indicadores_peso))"
    by (simp add: indicadores_peso_def)
  have zero: "\<not> list_ex (\<lambda>g. contains g (ascii_lower p)) giros"
    if "peso_semantico ascii_lower p = 0" for p
  proof -
    have "count_str (ascii_lower p) g = 0" if "g \<in> set giros" for g
      using \<open>peso_semantico ascii_lower p = 0\<close> that
      unfolding peso_semantico_def Let_def indicadores_peso_def by (auto simp: giros_def)
    then show ?thesis using no_count by (auto simp: list_ex_iff)
  qed
  have one: "list_ex (\<lambda>g. contains g (ascii_lower (ustr ''Sin embargo, no vino nadie.''))) giros"
    by (simp add: giros_def ustr_def ascii_lower_def startswith_eval)
  have imp: "\<not> list_ex (\<lambda>g. contains g
               (ascii_lower (ustr ''Es importante, crucial, esencial y fundamental.''))) giros"
    by (simp add: giros_def ustr_def ascii_lower_def startswith_eval)
  show "map (\<lambda>p. list_ex (\<lambda>g. contains g (ascii_lower p)) giros) documento_importancia
          = [False, True, False]"
    unfolding documento_importancia_def
    using one imp zero [OF peso_semantico_luego] by simp
  show "map (\<lambda>p. list_ex (\<lambda>g. contains g (ascii_lower p)) giros) documento_largo
          = [False, True, False]"
    unfolding documento_largo_def
    using one zero [OF peso_semantico_llegaron] zero [OF peso_semantico_tren] by simp
  show "map (peso_semantico ascii_lower) documento_largo = [0, 3, 0]"
    unfolding documento_largo_def
    by (simp add: peso_semantico_llegaron peso_semantico_nadie peso_semantico_tren)
  have nadie: "peso_parrafo ascii_lower 3 1 (ustr ''Sin embargo, no vino nadie.'')
                 \<le> (3 + 27 / 100) * 1.2 * (1 + 1 / 10 ^ 15)"
    using peso_parrafo_three(4) [of ascii_lower "ustr ''Sin embargo, no vino nadie.''"]
    unfolding peso_semantico_nadie by (simp add: ustr_def)
  have importante:
    "(8 + 47 / 100) * (1 - 1 / 10 ^ 15)
       \<le> peso_parrafo ascii_lower 3 0 (ustr ''Es importante, crucial, esencial y fundamental.'')"
    using peso_parrafo_three(1)
      [of ascii_lower "ustr ''Es importante, crucial, esencial y fundamental.''"]
    unfolding peso_semantico_importante by (simp add: ustr_def)
  have luego: "peso_parrafo ascii_lower 3 2 (ustr ''Luego se fue a casa.'')
                 \<le> (20 / 100) * 1.2 * (1 + 1 / 10 ^ 15)"
    using peso_parrafo_three(6) [of ascii_lower "ustr ''Luego se fue a casa.''"]
    unfolding peso_semantico_luego by (simp add: ustr_def)
  have llegaron: "peso_parrafo ascii_lower 3 0 (ustr ''Llegaron al alba.'')
                    \<le> (17 / 100) * (1 + 1 / 10 ^ 15)"
    using peso_parrafo_three(2) [of ascii_lower "ustr ''Llegaron al alba.''"]
    unfolding peso_semantico_llegaron by (simp add: ustr_def)
  have tren: "(333 / 100) * 1.2 * (1 - 1 / 10 ^ 15)
                \<le> peso_parrafo ascii_lower 3 2
                    (concat (replicate 10 (ustr ''El tren sale hoy y vuelve luego. ''))
                       @ ustr ''Ya.'')"
    using peso_parrafo_three(5)
      [of ascii_lower
          "concat (replicate 10 (ustr ''El tren sale hoy y vuelve luego. '')) @ ustr ''Ya.''"]
    unfolding peso_semantico_tren
    by (simp add: ustr_def length_concat sum_list_replicate)
  have "peso_parrafo ascii_lower 3 1 (ustr ''Sin embargo, no vino nadie.'')
          \<le> peso_parrafo ascii_lower 3 0
              (ustr ''Es importante, crucial, esencial y fundamental.'')"
    and "peso_parrafo ascii_lower 3 2 (ustr ''Luego se fue a casa.'')
          \<le> peso_parrafo ascii_lower 3 0
              (ustr ''Es importante, crucial, esencial y fundamental.'')"
    using nadie importante luego by simp_all
  then show "calcular_centro_dramatico ascii_lower documento_importancia = Inr 0"
    unfolding documento_importancia_def calcular_centro_dramatico_def Let_def pesos_three
    using centro_of_pesos(1) by simp
  have "peso_parrafo ascii_lower 3 0 (ustr ''Llegaron al alba.'')
          < peso_parrafo ascii_lower 3 2
              (concat (replicate 10 (ustr ''El tren sale hoy y vuelve luego. ''))
                 @ ustr ''Ya.'')"
    and "peso_parrafo ascii_lower 3 1 (ustr ''Sin embargo, no vino nadie.'')
          < peso_parrafo ascii_lower 3 2
              (concat (replicate 10 (ustr ''El tren sale hoy y vuelve luego. ''))
                 @ ustr ''Ya.'')"
    using nadie llegaron tren by simp_all
  then show "calcular_centro_dramatico ascii_lower documento_largo = Inr 2"
    unfolding documento_largo_def calcular_centro_dramatico_def Let_def pesos_three
    using centro_of_pesos(3) by simp
qed

text \<open>
  The bound of 300 code points is strict. In \<open>documento_frontera\<close> the third paragraph
  is exactly 300 code points longer than the second: the exact weights are equal,
  \<open>3.72 * 1.2\<close>, and the rounded weight of the second paragraph, whose sum
  \<open>3 + 0.72\<close> is rounded, is the smaller one, so that the centre is index 2.
\<close>

lemma calcular_centro_dramatico_frontera:
  "map (peso_semantico ascii_lower) documento_frontera = [0, 3, 0]
   \<and> map length documento_frontera = [17, 72, 372]
   \<and> peso_parrafo ascii_lower 3 1 (documento_frontera ! 1)
       < peso_parrafo ascii_lower 3 2 (documento_frontera ! 2)
   \<and> calcular_centro_dramatico ascii_lower documento_frontera = Inr 2"
proof -
  have l: "length (ustr ''Llegaron al alba.'') = 17"
    "length (ustr ''Sin embargo, no vino nadie a la casa, y el tren de la tarde no sale hoy.'')
       = 72"
    "length (concat (replicate 11 (ustr ''El tren sale hoy y vuelve luego. ''))
               @ ustr ''Ya se va.'') = 372"
    by (simp_all add: ustr_def length_concat sum_list_replicate)
  have w0: "peso_parrafo ascii_lower 3 0 (ustr ''Llegaron al alba.'') = fl (17 / 100)"
    unfolding peso_parrafo_three_eq peso_semantico_llegaron l
    by (simp add: fl_def binade_def rne_def bits.simps Let_def power_int_minus)
  have w1: "peso_parrafo ascii_lower 3 1
              (ustr ''Sin embargo, no vino nadie a la casa, y el tren de la tarde no sale hoy.'')
            = 5026017184145473 / 2 ^ 50"
    unfolding peso_parrafo_three_eq peso_semantico_casa l
    by (simp add: fl_def binade_def rne_def bits.simps Let_def power_int_minus)
  have w2: "peso_parrafo ascii_lower 3 2
              (concat (replicate 11 (ustr ''El tren sale hoy y vuelve luego. ''))
                 @ ustr ''Ya se va.'')
            = 5026017184145474 / 2 ^ 50"
    unfolding peso_parrafo_three_eq peso_semantico_tren_va l
    by (simp add: fl_def binade_def rne_def bits.simps Let_def power_int_minus)
  have f: "fl (17 / 100) < 1"
    by (simp add: fl_def binade_def rne_def bits.simps Let_def power_int_minus)
  have c: "calcular_centro_dramatico ascii_lower documento_frontera = Inr 2"
    unfolding documento_frontera_def calcular_centro_dramatico_def Let_def pesos_three w0 w1 w2
    using centro_of_pesos(3)
      [of "fl (17 / 100)" "5026017184145474 / 2 ^ 50" "5026017184145473 / 2 ^ 50"] f
    by simp
  have m: "map (peso_semantico ascii_lower) documento_frontera = [0, 3, 0]"
    unfolding documento_frontera_def list.map peso_semantico_llegaron peso_semantico_casa
      peso_semantico_tren_va ..
  have ml: "map length documento_frontera = [17, 72, 372]"
    unfolding documento_frontera_def list.map l ..
  have n1: "documento_frontera ! 1
              = ustr ''Sin embargo, no vino nadie a la casa, y el tren de la tarde no sale hoy.''"
    and n2: "documento_frontera ! 2
              = concat (replicate 11 (ustr ''El tren sale hoy y vuelve luego. ''))
                  @ ustr ''Ya se va.''"
    by (simp_all add: documento_frontera_def)
  have lt: "peso_parrafo ascii_lower 3 1 (documento_frontera ! 1)
              < peso_parrafo ascii_lower 3 2 (documento_frontera ! 2)"
    unfolding n1 n2 w1 w2 by simp
  from m ml lt c show ?thesis by (intro conjI)
qed
section \<open>Properties of the sentence segmentation\<close>

lemma finalizar_frase_terminal:
  assumes "f \<in> set (finalizar_frase frase)"
  shows "f \<noteq> [] \<and> one_of ''.!?'' (last f)"
proof -
  define fl where "fl = strip frase"
  have mark: "one_of ''.!?'' 33" "one_of ''.!?'' 63" "one_of ''.!?'' 46"
    by (simp_all add: one_of_def ustr_def)
  from assms have ne: "fl \<noteq> []"
    unfolding finalizar_frase_def Let_def fl_def [symmetric] by (auto split: if_splits)
  from assms consider
    "f = fl" "one_of ''.!?'' (last fl)"
    | "f = fl @ ustr ''!''" | "f = fl @ ustr ''?''" | "f = fl @ ustr ''.''"
    unfolding finalizar_frase_def Let_def fl_def [symmetric] by (auto split: if_splits)
  then show ?thesis
    using ne mark by cases (simp_all add: ustr_def)
qed

lemma separar_exclamaciones_interrogaciones_terminal:
  assumes "f \<in> set (separar_exclamaciones_interrogaciones texto)"
  shows "f \<noteq> [] \<and> one_of ''.!?'' (last f)"
  using assms finalizar_frase_terminal
  unfolding separar_exclamaciones_interrogaciones_def by auto

text \<open>
  Claim C3. For every paragraph text, every sentence that \<open>_segmentar_frases\<close> returns
  is not empty and ends in a full stop, an exclamation mark or a question mark. The
  function is total: the loop of \<open>_separar_exclamaciones_interrogaciones\<close> terminates.
\<close>

theorem segmentar_frases_terminal:
  "\<forall>f \<in> set (segmentar_frases isword parrafo). f \<noteq> [] \<and> one_of ''.!?'' (last f)"
proof
  fix f
  assume "f \<in> set (segmentar_frases isword parrafo)"
  then obtain t where "f \<in> set (separar_exclamaciones_interrogaciones t)"
    unfolding segmentar_frases_def Let_def by (auto split: if_splits)
  then show "f \<noteq> [] \<and> one_of ''.!?'' (last f)"
    by (rule separar_exclamaciones_interrogaciones_terminal)
qed

lemma dividir_vienes: "dividir_frase_simple ([191] @ ustr ''Vienes'') = [[191] @ ustr ''Vienes'']"
  by (simp add: dividir_frase_simple_def buscar_division_def re_search_def ustr_def one_of_def
      apertura_def mayuscula_def isspace_def)

lemma dividir_claro:
  "dividir_frase_simple (ustr ''S'' @ [237] @ ustr '', claro.'')
     = [ustr ''S'' @ [237] @ ustr '', claro.'']"
  by (simp add: dividir_frase_simple_def buscar_division_def re_search_def ustr_def one_of_def
      apertura_def mayuscula_def isspace_def)

lemma separar_vienes:
  "separar_exclamaciones_interrogaciones ([191] @ ustr ''Vienes'') = [[191] @ ustr ''Vienes?'']"
proof -
  have "separar_bucle [[191] @ ustr ''Vienes''] = [[191] @ ustr ''Vienes'']"
    by (subst separar_bucle.simps) (simp add: Let_def dividir_vienes [simplified])
  then show ?thesis
    by (simp add: separar_exclamaciones_interrogaciones_def finalizar_frase_def strip_def
        lstrip_def rstrip_def isspace_def one_of_def ustr_def startswith_def)
qed

lemma separar_claro:
  "separar_exclamaciones_interrogaciones (ustr ''S'' @ [237] @ ustr '', claro.'')
     = [ustr ''S'' @ [237] @ ustr '', claro.'']"
proof -
  have "separar_bucle [ustr ''S'' @ [237] @ ustr '', claro.'']
          = [ustr ''S'' @ [237] @ ustr '', claro.'']"
    by (subst separar_bucle.simps) (simp add: Let_def dividir_claro [simplified])
  then show ?thesis
    by (simp add: separar_exclamaciones_interrogaciones_def finalizar_frase_def strip_def
        lstrip_def rstrip_def isspace_def one_of_def ustr_def startswith_def)
qed

lemma segmentar_frases_vienes:
  "segmentar_frases ascii_isword parrafo_vienes
     = [[191] @ ustr ''Vienes?'', ustr ''S'' @ [237] @ ustr '', claro.'']"
proof -
  have raw: "re_split (seq_matcher [(one_of ''.!?'', AtLeast 1), (isspace, AtLeast 1)])
               parrafo_vienes
             = [[191] @ ustr ''Vienes'', ustr ''S'' @ [237] @ ustr '', claro.'']"
    by (simp add: re_split_def seq_matcher_def parrafo_vienes_def ustr_def one_of_def
        isspace_def)
  have s1: "re_sub (abreviatura_matcher ascii_isword) proteger parrafo_vienes = parrafo_vienes"
    by (simp add: re_sub_def abreviatura_matcher_def word_boundary_def ascii_isword_def
        abreviaturas_def parrafo_vienes_def ustr_def startswith_eval)
  have s2: "re_sub (seq_matcher [(one_of ''.!?'', Once), (isspace, AtLeast 0), (apertura, Once)])
              marcar_ruptura parrafo_vienes = parrafo_vienes"
    by (simp add: re_sub_def seq_matcher_def parrafo_vienes_def ustr_def one_of_def
        isspace_def apertura_def)
  have s3: "re_sub (seq_matcher [(one_of ''.!?'', Once), (isspace, AtLeast 2), (apertura, Once)])
              marcar_ruptura parrafo_vienes = parrafo_vienes"
    by (simp add: re_sub_def seq_matcher_def parrafo_vienes_def ustr_def one_of_def
        isspace_def apertura_def)
  have nb: "\<not> contains (ustr ''<FRASE_BREAK>'') parrafo_vienes"
    by (simp add: parrafo_vienes_def ustr_def startswith_eval)
  have c1: "strip (str_replace ([191] @ ustr ''Vienes'') (ustr ''<DOT>'') (ustr ''.''))
              = [191] @ ustr ''Vienes''"
    by (simp add: str_replace_def re_sub_def lit_matcher_def strip_def lstrip_def rstrip_def
        isspace_def ustr_def startswith_eval)
  have c2: "strip (str_replace (ustr ''S'' @ [237] @ ustr '', claro.'') (ustr ''<DOT>'')
               (ustr ''.''))
              = ustr ''S'' @ [237] @ ustr '', claro.''"
    by (simp add: str_replace_def re_sub_def lit_matcher_def strip_def lstrip_def rstrip_def
        isspace_def ustr_def startswith_eval)
  have ne: "[191] @ ustr ''Vienes'' \<noteq> []" "ustr ''S'' @ [237] @ ustr '', claro.'' \<noteq> []"
    by simp_all
  have st: "strip ([191] @ ustr ''Vienes?'') \<noteq> []"
    "strip (ustr ''S'' @ [237] @ ustr '', claro.'') \<noteq> []"
    by (simp_all add: strip_def lstrip_def rstrip_def isspace_def ustr_def)
  show ?thesis
    unfolding segmentar_frases_def Let_def s1 s2 s3 raw
    using nb by (simp add: c1 c2 ne separar_vienes separar_claro st del: append.simps)
qed

text \<open>
  The example of the specification: the paragraph of a question and an answer is
  segmented into exactly these two sentences, which end in a question mark and a full
  stop.
\<close>

theorem segmentar_frases_terminal_witness:
  "segmentar_frases ascii_isword parrafo_vienes
     = [[191] @ ustr ''Vienes?'', ustr ''S'' @ [237] @ ustr '', claro.'']
   \<and> [191] @ ustr ''Vienes?'' \<noteq> []
   \<and> one_of ''.!?'' (last ([191] @ ustr ''Vienes?''))
   \<and> ustr ''S'' @ [237] @ ustr '', claro.'' \<noteq> []
   \<and> one_of ''.!?'' (last (ustr ''S'' @ [237] @ ustr '', claro.''))"
proof -
  have "\<forall>f \<in> set [[191] @ ustr ''Vienes?'', ustr ''S'' @ [237] @ ustr '', claro.''].
          f \<noteq> [] \<and> one_of ''.!?'' (last f)"
    using segmentar_frases_terminal [of ascii_isword parrafo_vienes]
    unfolding segmentar_frases_vienes .
  then have "[191] @ ustr ''Vienes?'' \<noteq> []
   \<and> one_of ''.!?'' (last ([191] @ ustr ''Vienes?''))
   \<and> ustr ''S'' @ [237] @ ustr '', claro.'' \<noteq> []
   \<and> one_of ''.!?'' (last (ustr ''S'' @ [237] @ ustr '', claro.''))"
    by (simp del: append.simps last_appendR last_appendL last_append)
  with segmentar_frases_vienes show ?thesis by blast
qed

section \<open>Properties of the segment summary\<close>

lemma sum_list_take_nth:
  fixes xs :: "real list"
  assumes "m \<le> length xs"
  shows "sum_list (take m xs) = (\<Sum>i<m. xs ! i)"
proof -
  have "sum_list (take m xs) = (\<Sum>i = 0..<length (take m xs). take m xs ! i)"
    by (rule sum_list_sum_nth)
  also have "\<dots> = (\<Sum>i = 0..<m. xs ! i)"
    using assms by (intro sum.cong) simp_all
  finally show ?thesis by (simp add: atLeast0LessThan)
qed

lemma sum_list_drop_nth:
  fixes xs :: "real list"
  assumes "a \<le> length xs"
  shows "sum_list (drop a xs) = (\<Sum>i<length xs - a. xs ! (a + i))"
proof -
  have "sum_list (drop a xs) = (\<Sum>i = 0..<length (drop a xs). drop a xs ! i)"
    by (rule sum_list_sum_nth)
  also have "\<dots> = (\<Sum>i = 0..<length xs - a. xs ! (a + i))"
    using assms by (intro sum.cong) simp_all
  finally show ?thesis by (simp add: atLeast0LessThan)
qed

lemma np_mean_slice_to:
  assumes "0 < k" "xs \<noteq> []"
  shows "np_mean (slice_to k xs)
           = Some ((\<Sum>i<min k (length xs). xs ! i) / real (min k (length xs)))"
proof -
  have t: "take k xs = take (min k (length xs)) xs"
    by (cases "k \<le> length xs") (simp_all add: min_def)
  have ne: "take k xs \<noteq> []" using assms by (cases xs) (simp_all add: take_Cons')
  have "sum_list (take (min k (length xs)) xs) = (\<Sum>i<min k (length xs). xs ! i)"
    by (rule sum_list_take_nth) simp
  then show ?thesis
    using ne t by (simp add: np_mean_def slice_to_def min_def)
qed

lemma np_mean_slice_last:
  assumes "0 < k" "xs \<noteq> []"
  shows "np_mean (slice_last k xs)
           = Some ((\<Sum>i<min k (length xs). xs ! (length xs - min k (length xs) + i))
                    / real (min k (length xs)))"
proof -
  define a where "a = length xs - k"
  have a: "a \<le> length xs" and la: "length xs - a = min k (length xs)"
    and a': "a = length xs - min k (length xs)"
    by (simp_all add: a_def min_def)
  have "0 < length xs" using assms by simp
  then have "a < length xs" using assms(1) unfolding a_def by arith
  then have ne: "drop a xs \<noteq> []" by simp
  have len: "length (drop a xs) = min k (length xs)" using la by simp
  have "sum_list (drop a xs) = (\<Sum>i<length xs - a. xs ! (a + i))"
    by (rule sum_list_drop_nth [OF a])
  then have "sum_list (drop a xs)
               = (\<Sum>i<min k (length xs). xs ! (length xs - min k (length xs) + i))"
    unfolding la a' [symmetric] .
  then show ?thesis
    using ne len unfolding np_mean_def slice_last_def a_def [symmetric] by simp
qed

lemma np_mean_slice_between:
  assumes "a \<le> b" "b \<le> length xs"
  shows "np_mean (slice_between a b xs)
           = (if a < b then Some ((\<Sum>i = a..<b. xs ! i) / real (b - a)) else None)"
proof -
  have len: "length (drop a (take b xs)) = b - a" using assms by simp
  have "sum_list (drop a (take b xs))
          = (\<Sum>i<length (take b xs) - a. take b xs ! (a + i))"
    by (rule sum_list_drop_nth) (use assms in simp)
  also have "\<dots> = (\<Sum>i<b - a. xs ! (a + i))"
    using assms by (intro sum.cong) simp_all
  also have "\<dots> = (\<Sum>i = a..<b. xs ! i)"
    using assms(1)
    by (intro sum.reindex_bij_witness [where i = "\<lambda>i. i - a" and j = "\<lambda>i. a + i"]) auto
  finally have s: "sum_list (drop a (take b xs)) = (\<Sum>i = a..<b. xs ! i)" .
  show ?thesis
  proof (cases "a < b")
    case True
    then have "drop a (take b xs) \<noteq> []" using len by (metis length_0_conv zero_less_diff less_numeral_extra(3))
    then show ?thesis
      using True s len unfolding np_mean_def slice_between_def by simp
  next
    case False
    then have "drop a (take b xs) = []" using len by simp
    then show ?thesis
      using False unfolding np_mean_def slice_between_def by simp
  qed
qed

lemma all_pitches_pos: "p \<in> set (all_pitches ws) \<Longrightarrow> 0 < p"
  by (simp add: all_pitches_def)

text \<open>
  Claim C10, as amended. For a segment with at least one voiced window, the summary is
  computed from the list \<open>ps\<close> of the \<open>n\<close> positive window pitches: \<open>pitch_start\<close> is
  the mean of the first \<open>m\<close> of them and \<open>pitch_end\<close> the mean of the last \<open>m\<close>, where
  \<open>m\<close> is the larger of 2 and \<open>n div 5\<close>, cut to \<open>n\<close>; \<open>pitch_middle\<close> is the mean of
  the middle third, the pitches at the indices from \<open>n div 3\<close> up to, not including,
  \<open>2 * n div 3\<close>, and NaN when that range is empty; \<open>pitch_start\<close> is positive and
  \<open>arc_slope\<close> is \<open>(pitch_end - pitch_start) / pitch_start\<close>.
\<close>

theorem prosodic_arc_metrics_summary:
  assumes "all_pitches ws \<noteq> []"
  shows "let ps = all_pitches ws;
             n = length ps;
             m = min (max 2 (n div 5)) n;
             s = (\<Sum>i<m. ps ! i) / real m;
             e = (\<Sum>i<m. ps ! (n - m + i)) / real m
         in 0 < s
            \<and> prosodic_arc_metrics ws
                = Some \<lparr> pitch_start = Some s,
                         pitch_middle =
                           (if n div 3 < 2 * n div 3
                            then Some ((\<Sum>i = n div 3..<2 * n div 3. ps ! i)
                                       / real (2 * n div 3 - n div 3))
                            else None),
                         pitch_end = Some e,
                         arc_slope = Some ((e - s) / s) \<rparr>"
proof -
  define ps where "ps = all_pitches ws"
  define n where "n = length ps"
  define m where "m = min (max 2 (n div 5)) n"
  define s where "s = (\<Sum>i<m. ps ! i) / real m"
  define e where "e = (\<Sum>i<m. ps ! (n - m + i)) / real m"
  have ne: "ps \<noteq> []" using assms by (simp add: ps_def)
  then have n0: "0 < n" by (simp add: n_def)
  then have m0: "0 < m" and mn: "m \<le> n" by (simp_all add: m_def)
  have w: "ws \<noteq> []" using assms by (auto simp: all_pitches_def)
  have pos: "0 < ps ! i" if "i < n" for i
    using that all_pitches_pos [of "ps ! i" ws] by (simp add: ps_def n_def)
  have "0 < (\<Sum>i<m. ps ! i)"
  proof (rule sum_pos)
    show "finite {..<m}" by simp
    show "{..<m} \<noteq> {}" using m0 by auto
    show "0 < ps ! i" if "i \<in> {..<m}" for i using that mn pos by simp
  qed
  then have s0: "0 < s" using m0 by (simp add: s_def)
  have st: "np_mean (slice_to (max 2 (length ps div 5)) ps) = Some s"
    using np_mean_slice_to [of "max 2 (length ps div 5)" ps] ne
    by (simp add: s_def m_def n_def)
  have en: "np_mean (slice_last (max 2 (length ps div 5)) ps) = Some e"
    using np_mean_slice_last [of "max 2 (length ps div 5)" ps] ne
    by (simp add: e_def m_def n_def)
  have mi: "np_mean (slice_between (length ps div 3) (2 * length ps div 3) ps)
              = (if n div 3 < 2 * n div 3
                 then Some ((\<Sum>i = n div 3..<2 * n div 3. ps ! i)
                            / real (2 * n div 3 - n div 3))
                 else None)"
    unfolding n_def by (rule np_mean_slice_between) simp_all
  have "prosodic_arc_metrics ws
          = Some \<lparr> pitch_start = Some s,
                   pitch_middle =
                     (if n div 3 < 2 * n div 3
                      then Some ((\<Sum>i = n div 3..<2 * n div 3. ps ! i)
                                 / real (2 * n div 3 - n div 3))
                      else None),
                   pitch_end = Some e,
                   arc_slope = Some ((e - s) / s) \<rparr>"
    unfolding prosodic_arc_metrics_def Let_def ps_def [symmetric] st en mi
    using w ne by simp
  with s0 show ?thesis
    unfolding Let_def ps_def [symmetric] n_def [symmetric] m_def [symmetric]
      s_def [symmetric] e_def [symmetric]
    by simp
qed

lemma all_pitches_ten_windows:
  "all_pitches ten_windows = [100, 200, 100, 90, 120, 90, 100, 100, 100, 100]"
  by (simp add: all_pitches_def ten_windows_def window_of_pitch_def upt_rec [of _ "numeral _"])

lemma all_pitches_five_windows:
  "all_pitches five_windows = [100, 200, 100, 100, 100]"
  by (simp add: all_pitches_def five_windows_def window_of_pitch_def upt_rec [of _ "numeral _"])

lemma prosodic_arc_metrics_ten_windows:
  "prosodic_arc_metrics ten_windows
     = Some \<lparr> pitch_start = Some 150, pitch_middle = Some 100, pitch_end = Some 100,
              arc_slope = Some (- (1 / 3)) \<rparr>"
proof -
  have w: "ten_windows \<noteq> []"
    by (simp add: ten_windows_def upt_rec [of _ "numeral _"])
  show ?thesis
    unfolding prosodic_arc_metrics_def Let_def all_pitches_ten_windows
    using w by (simp add: np_mean_def slice_to_def slice_between_def slice_last_def)
qed

lemma prosodic_arc_metrics_five_windows:
  "prosodic_arc_metrics five_windows
     = Some \<lparr> pitch_start = Some 150, pitch_middle = Some 150, pitch_end = Some 100,
              arc_slope = Some (- (1 / 3)) \<rparr>"
proof -
  have w: "five_windows \<noteq> []"
    by (simp add: five_windows_def upt_rec [of _ "numeral _"])
  show ?thesis
    unfolding prosodic_arc_metrics_def Let_def all_pitches_five_windows
    using w by (simp add: np_mean_def slice_to_def slice_between_def slice_last_def)
qed

text \<open>
  The amended summary at ten voiced ws: \<open>m\<close> is 2 and the middle third is the
  ws 3, 4 and 5.
\<close>

theorem prosodic_arc_metrics_summary_witness:
  "all_pitches ten_windows \<noteq> []
   \<and> (0::real) < (100 + 200) / 2
   \<and> prosodic_arc_metrics ten_windows
       = Some \<lparr> pitch_start = Some ((100 + 200) / 2),
                pitch_middle = Some ((90 + 120 + 90) / 3),
                pitch_end = Some ((100 + 100) / 2),
                arc_slope = Some (((100 + 100) / 2 - (100 + 200) / 2) / ((100 + 200) / 2)) \<rparr>"
proof -
  have h: "all_pitches ten_windows \<noteq> []"
    by (simp add: all_pitches_ten_windows)
  have two: "{..<2::nat} = {0, 1}" by auto
  have mid: "{3..<6::nat} = {3, 4, 5}" by auto
  from prosodic_arc_metrics_summary [OF h]
  have "(0::real) < (100 + 200) / 2
   \<and> prosodic_arc_metrics ten_windows
       = Some \<lparr> pitch_start = Some ((100 + 200) / 2),
                pitch_middle = Some ((90 + 120 + 90) / 3),
                pitch_end = Some ((100 + 100) / 2),
                arc_slope = Some (((100 + 100) / 2 - (100 + 200) / 2) / ((100 + 200) / 2)) \<rparr>"
    unfolding Let_def all_pitches_ten_windows by (simp add: two mid)
  with h show ?thesis by blast
qed

text \<open>
  Claim C10 as stated fails. For ten voiced ws the code averages the three ws
  of the middle third, 100 here, where the middle fifth of the claim is two ws with
  mean 105; for five voiced ws the code averages the first two ws, 150 here,
  where the first fifth of the claim is one window, 100.
\<close>

theorem prosodic_arc_metrics_counterexample:
  "map_option pitch_middle (prosodic_arc_metrics ten_windows) = Some (Some 100)
   \<and> spec_pitch_middle (all_pitches ten_windows) = Some 105
   \<and> map_option pitch_start (prosodic_arc_metrics five_windows) = Some (Some 150)
   \<and> spec_pitch_start (all_pitches five_windows) = Some 100"
proof (intro conjI)
  show "map_option pitch_middle (prosodic_arc_metrics ten_windows) = Some (Some 100)"
    by (simp add: prosodic_arc_metrics_ten_windows)
  show "spec_pitch_middle (all_pitches ten_windows) = Some 105"
    unfolding all_pitches_ten_windows
    by (simp add: spec_pitch_middle_def np_mean_def slice_between_def)
  show "map_option pitch_start (prosodic_arc_metrics five_windows) = Some (Some 150)"
    by (simp add: prosodic_arc_metrics_five_windows)
  show "spec_pitch_start (all_pitches five_windows) = Some 100"
    unfolding all_pitches_five_windows
    by (simp add: spec_pitch_start_def np_mean_def slice_to_def)
qed

section \<open>Properties of the quality score\<close>

lemma max0_nonneg: "0 \<le> max0 x"
  by (simp add: max0_def split: option.splits)

lemma quality_penalties_nonneg:
  assumes r: "0 \<le> min_duration_ratio (metrics g)" "0 \<le> max_duration_ratio (metrics g)"
    and q: "quality_penalties lower isword librosa_rms g audio text
              = Some (duration_penalty, energy_penalty, silence_penalty)"
  shows "0 \<le> duration_penalty \<and> 0 \<le> energy_penalty \<and> 0 \<le> silence_penalty"
proof -
  define c where
    "c = (complexity_score (detect_spanish_features lower isword text) > fl 0.3)"
  define emin where "emin = real (length text) / 15 * min_duration_ratio (metrics g)"
  define emax where "emax = real (length text) / 8 * max_duration_ratio (metrics g)"
  define mid where
    "mid = ((if c then emin * 0.9 else emin) + (if c then emax * 1.2 else emax)) / 2"
  have e: "0 \<le> emin" "0 \<le> emax" using r by (simp_all add: emin_def emax_def)
  then have mid0: "0 \<le> mid" by (simp add: mid_def)
  from q obtain x y where
    d: "duration_penalty
          = \<bar>real (length audio) / real (sample_rate g) - mid\<bar> / mid"
    and en: "energy_penalty = max0 x" and si: "silence_penalty = max0 y"
    unfolding quality_penalties_def Let_def c_def [symmetric] emin_def [symmetric]
      emax_def [symmetric] mid_def [symmetric]
    by (auto split: if_splits option.splits)
  from d mid0 have "0 \<le> duration_penalty" by simp
  with en si show ?thesis by (simp add: max0_nonneg)
qed

text \<open>
  Claim C7. With the metrics that \<open>__init__\<close> sets, the score that
  \<open>evaluate_audio_quality\<close> returns is never negative, for every audio, text and result
  of the frame analysis; and when the score is 0 the block has not raised and the
  duration, energy and silence penalties are all 0.
\<close>

theorem evaluate_audio_quality_nonneg:
  "0 \<le> evaluate_audio_quality lower isword librosa_rms generador_inicial audio text
   \<and> (evaluate_audio_quality lower isword librosa_rms generador_inicial audio text = 0 \<longrightarrow>
        quality_penalties lower isword librosa_rms generador_inicial audio text
          = Some (0, 0, 0))"
proof (cases "quality_penalties lower isword librosa_rms generador_inicial audio text")
  case None
  then show ?thesis by (simp add: evaluate_audio_quality_def)
next
  case (Some t)
  obtain dp ep sp where t: "t = (dp, ep, sp)" by (cases t) auto
  have r: "0 \<le> min_duration_ratio (metrics generador_inicial)"
    "0 \<le> max_duration_ratio (metrics generador_inicial)"
    by (simp_all add: generador_inicial_def)
  from quality_penalties_nonneg [OF r] Some t
  have nn: "0 \<le> dp" "0 \<le> ep" "0 \<le> sp" by blast+
  have v: "evaluate_audio_quality lower isword librosa_rms generador_inicial audio text
             = 2 * dp + ep + sp"
    using Some t by (simp add: evaluate_audio_quality_def)
  from nn have "0 \<le> 2 * dp + ep + sp" by simp
  moreover from nn have "2 * dp + ep + sp = 0 \<longrightarrow> dp = 0 \<and> ep = 0 \<and> sp = 0" by auto
  ultimately show ?thesis using v Some t by simp
qed

lemma complexity_score_a:
  "complexity_score (detect_spanish_features ascii_lower ascii_isword (ustr ''a'')) = 0"
  by (simp add: detect_spanish_features_def sinalefa_patterns_def ustr_def ascii_lower_def
      ascii_isword_def findall_words_def vocal_def vocal_acentuada_def one_of_def
      problematic_finals_def fl_0)

text \<open>
  A text with three sinalefas and no problematic final: its complexity score is the
  float of \<open>3 * 0.1\<close>, which is above the float of 0.3.
\<close>

lemma complexity_score_tres_sinalefas:
  "sinalefas (detect_spanish_features ascii_lower ascii_isword (ustr ''la otra era una'')) = 3
   \<and> finals (detect_spanish_features ascii_lower ascii_isword (ustr ''la otra era una'')) = []
   \<and> complexity_score (detect_spanish_features ascii_lower ascii_isword
         (ustr ''la otra era una'')) = 5404319552844596 / 2 ^ 54
   \<and> fl 0.3 = 5404319552844595 / 2 ^ 54"
proof -
  have s: "sum_list (map (\<lambda>pattern. count_matches pattern 0
                  (ascii_lower (ustr ''la otra era una''))) sinalefa_patterns) = 3"
    by (simp add: sinalefa_patterns_def ustr_def ascii_lower_def vocal_def vocal_acentuada_def
        one_of_def isspace_def)
  have f: "filter (\<lambda>word. word \<noteq> [] \<and> problematic_finals (last word))
             (findall_words ascii_isword (ascii_lower (ustr ''la otra era una''))) = []"
    by (simp add: ustr_def ascii_lower_def ascii_isword_def findall_words_def one_of_def
        problematic_finals_def)
  have c: "min 1 (fl (fl (fl 3 * fl 0.1) + fl (fl 0 * fl 0.02))) = 5404319552844596 / 2 ^ 54"
    by (simp add: fl_def binade_def rne_def bits.simps Let_def power_int_minus)
  have t: "fl 0.3 = 5404319552844595 / 2 ^ 54"
    by (simp add: fl_def binade_def rne_def bits.simps Let_def power_int_minus)
  show ?thesis
    unfolding detect_spanish_features_def Let_def s f using c t by simp
qed

lemma quality_penalties_zero:
  "quality_penalties ascii_lower ascii_isword one_loud_frame generador_inicial
     (replicate 2810 1) (ustr ''a'') = Some (0, 0, 0)"
proof -
  have m: "np_mean (map (\<lambda>x. x ^ 2) (replicate 2810 (1::real))) = Some 1"
    by (simp add: np_mean_def sum_list_replicate)
  have l: "length (ustr ''a'') = 1" by (simp add: ustr_def)
  show ?thesis
    unfolding quality_penalties_def Let_def complexity_score_a m l
    using fl_three_tenths_pos by (simp add: generador_inicial_def one_loud_frame_def max0_def)
qed

text \<open>
  A text of one letter and 2810 samples of amplitude 1: the duration is the expected
  middle, 281/2400 seconds, and the clip is neither quiet nor silent, so the score is 0.
\<close>

theorem evaluate_audio_quality_nonneg_witness:
  "evaluate_audio_quality ascii_lower ascii_isword one_loud_frame generador_inicial
     (replicate 2810 1) (ustr ''a'') = 0
   \<and> quality_penalties ascii_lower ascii_isword one_loud_frame generador_inicial
       (replicate 2810 1) (ustr ''a'') = Some (0, 0, 0)"
proof -
  have z: "evaluate_audio_quality ascii_lower ascii_isword one_loud_frame generador_inicial
             (replicate 2810 1) (ustr ''a'') = 0"
    by (simp add: evaluate_audio_quality_def quality_penalties_zero)
  from evaluate_audio_quality_nonneg
    [of ascii_lower ascii_isword one_loud_frame "replicate 2810 1" "ustr ''a''"] z
  show ?thesis by blast
qed

section \<open>The severity of detected problems\<close>

lemma problemas_segmento_rising:
  "map (\<lambda>p. (p_type p, severity p))
     (problemas_segmento ascii_lower [rising_segment] 0 rising_segment)
     = [(Missing_paragraph_cadence, 52 / 23), (Inverted_prosodic_arc, 4 / 5),
        (Missing_definitive_ending, 1)]"
proof -
  have low: "ascii_lower (seg_text rising_segment) = ustr ''hola mundo.''"
    by (simp add: rising_segment_def ascii_lower_def ustr_def)
  have no_word: "\<not> contains pal (ustr ''hola mundo.'')"
    if "pal \<in> set (concat (map snd palabras_especiales))" for pal
    using that by (auto simp: palabras_especiales_def ustr_def startswith_def)
  have pv: "problemas_palabra_ventana ascii_lower 0 rising_segment cat b t w ty = []" for cat b t w ty
    unfolding problemas_palabra_ventana_def Let_def low
    using no_word by (cases cat) (auto simp: palabras_de_def palabras_especiales_def)
  have fp: "problemas_final_palabra ascii_lower 0 rising_segment = []"
    unfolding problemas_final_palabra_def Let_def low
    using no_word by (auto simp: palabras_de_def palabras_especiales_def)
  have en: "problemas_enfasis ascii_lower rising_segment = []"
    unfolding problemas_enfasis_def Let_def low
    by (simp add: verificar_enfasis_palabra_def rising_segment_def palabras_especiales_def)
  have fin: "es_final_definitivo ascii_lower rising_segment"
    unfolding es_final_definitivo_def Let_def low
    by (simp add: rising_segment_def endswith_def ustr_def)
  have cad: "map (\<lambda>p. (p_type p, severity p)) (problema_cadencia 0 rising_segment w)
               = [(Missing_paragraph_cadence, 52 / 23)]" for w
    by (simp add: problema_cadencia_def rising_segment_def detector_rules_def)
  have arc: "map (\<lambda>p. (p_type p, severity p)) (problema_arco_invertido 0 rising_segment)
               = [(Inverted_prosodic_arc, 4 / 5)]"
    by (simp add: problema_arco_invertido_def rising_segment_def detector_rules_def)
  have vf: "map_option (\<lambda>p. (p_type p, severity p))
              (verificar_final_definitivo rising_segment 0)
              = Some (Missing_definitive_ending, 1)"
    by (simp add: verificar_final_definitivo_def rising_segment_def detector_rules_def)
  then obtain p where p: "verificar_final_definitivo rising_segment 0 = Some p"
    "p_type p = Missing_definitive_ending" "severity p = 1"
    by auto
  have w: "filter (\<lambda>w. w_position_type w = Release) (windows rising_segment) \<noteq> []"
    by (simp add: rising_segment_def)
  show ?thesis
    unfolding problemas_segmento_def Let_def
    using w by (simp add: pv fp en fin cad arc p)
qed

text \<open>
  Claim C2 at a concrete analysis. The declarative paragraph end \<open>rising_segment\<close>, with
  a start pitch of 100 Hz and an end pitch of 300 Hz, gives three problems; the first,
  of type \<open>missing_paragraph_cadence\<close>, has severity \<open>(300 - 92) / 92\<close>, about 2.26, which
  is above 1. The severities of \<open>_verificar_final_definitivo\<close> and of the inverted arc
  are cut at 1.
\<close>

theorem identify_problems_severity_rising:
  "map severity (identify_problems ascii_lower [rising_segment]) = [52 / 23, 1, 4 / 5]
   \<and> map p_type (identify_problems ascii_lower [rising_segment])
       = [Missing_paragraph_cadence, Missing_definitive_ending, Inverted_prosodic_arc]"
proof -
  from problemas_segmento_rising obtain p1 p2 p3 where
    ps: "problemas_segmento ascii_lower [rising_segment] 0 rising_segment = [p1, p2, p3]"
    and t: "p_type p1 = Missing_paragraph_cadence" "p_type p2 = Inverted_prosodic_arc"
      "p_type p3 = Missing_definitive_ending"
    and s: "severity p1 = 52 / 23" "severity p2 = 4 / 5" "severity p3 = 1"
    by (auto simp: map_eq_Cons_conv)
  have "identify_problems ascii_lower [rising_segment] = [p1, p3, p2]"
    by (simp add: identify_problems_def enumerate_eq_zip ps s)
  then show ?thesis by (simp add: t s)
qed

section \<open>The frame of the selective regenerator\<close>

lemma py_index_less: "py_index i n = Some j \<Longrightarrow> j < n"
  by (auto simp: py_index_def Let_def split: if_splits)

lemma corregir_frame:
  assumes "corregir r regen texts k ps (segs, rep) = Inr (segs', rep')"
  shows "length segs' = length segs
       \<and> (\<forall>i<length segs.
            segs' ! i = segs ! i
            \<or> (\<exists>j<length ps. \<exists>cand sc.
                  py_index (p_segment_id (ps ! j)) (length segs) = Some i
                  \<and> mejor_candidato r (regen (k + j)) = Some (Some cand, sc)
                  \<and> sc > 0.5 \<and> segs' ! i = cand))"
  using assms
proof (induction ps arbitrary: k segs rep)
  case Nil
  then show ?case by simp
next
  case (Cons p ps)
  let ?rep1 = "rep\<lparr> attempted := attempted rep + 1 \<rparr>"
  from Cons.prems obtain t where t: "py_index (p_segment_id p) (length texts) = Some t"
    by (auto simp: Let_def split: option.splits)
  from Cons.prems t obtain bc bs where m: "mejor_candidato r (regen k) = Some (bc, bs)"
    by (auto simp: Let_def split: option.splits)
  show ?case
  proof (cases "\<exists>cand. bc = Some cand \<and> bs > 0.5")
    case True
    then obtain cand where bc: "bc = Some cand" and bs: "bs > 0.5" by blast
    from Cons.prems t m bc bs obtain j where
      j: "py_index (p_segment_id p) (length segs) = Some j"
      by (auto simp: Let_def split: option.splits)
    define rep2 where
      "rep2 = ?rep1\<lparr> successful := successful ?rep1 + 1,
                        fix_list := fix_list ?rep1 @ [(p_segment_id p, p_type p, bs)] \<rparr>"
    have rec: "corregir r regen texts (k + 1) ps (segs[j := cand], rep2) = Inr (segs', rep')"
      using Cons.prems t m bc bs j by (simp add: Let_def rep2_def)
    from Cons.IH [OF rec] have len: "length segs' = length segs"
      and frame: "\<forall>i<length segs.
            segs' ! i = segs[j := cand] ! i
            \<or> (\<exists>j'<length ps. \<exists>c sc.
                  py_index (p_segment_id (ps ! j')) (length segs) = Some i
                  \<and> mejor_candidato r (regen (k + 1 + j')) = Some (Some c, sc)
                  \<and> sc > 0.5 \<and> segs' ! i = c)"
      by simp_all
    have "segs' ! i = segs ! i
            \<or> (\<exists>j'<length (p # ps). \<exists>c sc.
                  py_index (p_segment_id ((p # ps) ! j')) (length segs) = Some i
                  \<and> mejor_candidato r (regen (k + j')) = Some (Some c, sc)
                  \<and> sc > 0.5 \<and> segs' ! i = c)"
      if i: "i < length segs" for i
    proof -
      from frame i consider
        (same) "segs' ! i = segs[j := cand] ! i"
        | (later) j' c sc where "j' < length ps"
          "py_index (p_segment_id (ps ! j')) (length segs) = Some i"
          "mejor_candidato r (regen (k + 1 + j')) = Some (Some c, sc)" "sc > 0.5"
          "segs' ! i = c"
        by blast
      then show ?thesis
      proof cases
        case same
        show ?thesis
        proof (cases "i = j")
          case True
          with same i have "segs' ! i = cand" by simp
          with j m bc bs True have
            "0 < length (p # ps)
             \<and> py_index (p_segment_id ((p # ps) ! 0)) (length segs) = Some i
             \<and> mejor_candidato r (regen (k + 0)) = Some (Some cand, bs)
             \<and> bs > 0.5 \<and> segs' ! i = cand"
            by simp
          then show ?thesis by blast
        next
          case False
          with same show ?thesis by simp
        qed
      next
        case later
        then have
          "Suc j' < length (p # ps)
           \<and> py_index (p_segment_id ((p # ps) ! Suc j')) (length segs) = Some i
           \<and> mejor_candidato r (regen (k + Suc j')) = Some (Some c, sc)
           \<and> sc > 0.5 \<and> segs' ! i = c"
          by simp
        then show ?thesis by blast
      qed
    qed
    with len show ?thesis by blast
  next
    case False
    define rep2 where "rep2 = ?rep1\<lparr> failed := failed ?rep1 + 1 \<rparr>"
    have rec: "corregir r regen texts (k + 1) ps (segs, rep2) = Inr (segs', rep')"
      using Cons.prems t m False
      by (cases bc) (auto simp: Let_def rep2_def split: if_splits)
    from Cons.IH [OF rec] have len: "length segs' = length segs"
      and frame: "\<forall>i<length segs.
            segs' ! i = segs ! i
            \<or> (\<exists>j'<length ps. \<exists>c sc.
                  py_index (p_segment_id (ps ! j')) (length segs) = Some i
                  \<and> mejor_candidato r (regen (k + 1 + j')) = Some (Some c, sc)
                  \<and> sc > 0.5 \<and> segs' ! i = c)"
      by simp_all
    have "segs' ! i = segs ! i
            \<or> (\<exists>j'<length (p # ps). \<exists>c sc.
                  py_index (p_segment_id ((p # ps) ! j')) (length segs) = Some i
                  \<and> mejor_candidato r (regen (k + j')) = Some (Some c, sc)
                  \<and> sc > 0.5 \<and> segs' ! i = c)"
      if i: "i < length segs" for i
    proof -
      from frame i consider
        (same) "segs' ! i = segs ! i"
        | (later) j' c sc where "j' < length ps"
          "py_index (p_segment_id (ps ! j')) (length segs) = Some i"
          "mejor_candidato r (regen (k + 1 + j')) = Some (Some c, sc)" "sc > 0.5"
          "segs' ! i = c"
        by blast
      then show ?thesis
      proof cases
        case same
        then show ?thesis by simp
      next
        case later
        then have
          "Suc j' < length (p # ps)
           \<and> py_index (p_segment_id ((p # ps) ! Suc j')) (length segs) = Some i
           \<and> mejor_candidato r (regen (k + Suc j')) = Some (Some c, sc)
           \<and> sc > 0.5 \<and> segs' ! i = c"
          by simp
        then show ?thesis by blast
      qed
    qed
    with len show ?thesis by blast
  qed
qed

text \<open>
  Claim C8. When \<open>fix_critical_problems\<close> returns, the list of segments has the length
  of the input list, and every segment either is the input segment at the same index or
  is the best candidate of the attempts for a critical problem on that segment, a
  candidate whose score exceeds 0.5.
\<close>

theorem fix_critical_problems_frame:
  assumes "fix_critical_problems r regen problems segs texts thr = Inr (segs', report)"
  shows "length segs' = length segs
       \<and> (\<forall>i<length segs.
            segs' ! i = segs ! i
            \<or> (\<exists>k<length (critical_problems r problems thr). \<exists>cand sc.
                  py_index (p_segment_id (critical_problems r problems thr ! k)) (length segs)
                    = Some i
                  \<and> mejor_candidato r (regen k) = Some (Some cand, sc)
                  \<and> sc > 0.5 \<and> segs' ! i = cand))"
proof (cases "critical_problems r problems thr = []")
  case True
  with assms have "segs' = segs" by (simp add: fix_critical_problems_def)
  then show ?thesis by simp
next
  case False
  with assms have
    "corregir r regen texts 0 (critical_problems r problems thr)
       (segs, \<lparr> attempted = 0, successful = 0, failed = 0, fix_list = [] \<rparr>)
     = Inr (segs', report)"
    by (simp add: fix_critical_problems_def)
  from corregir_frame [OF this] show ?thesis by simp
qed

lemma mejor_candidato_ejemplo:
  "mejor_candidato regenerator_inicial (regen_ejemplo k) = Some (Some [3], 0.9)"
  by (simp add: mejor_candidato_def regenerator_inicial_def regen_ejemplo_def
      upt_rec [of _ "numeral _"])

lemma fix_critical_problems_ejemplo:
  "fix_critical_problems regenerator_inicial regen_ejemplo [problema_ejemplo] [[1], [2]]
     [ustr ''a.'', ustr ''b.''] 0.3
   = Inr ([[1], [3]],
          \<lparr> attempted = 1, successful = 1, failed = 0,
            fix_list = [(1, Inverted_prosodic_arc, 0.9)] \<rparr>)"
proof -
  have c: "critical_problems regenerator_inicial [problema_ejemplo] 0.3 = [problema_ejemplo]"
    by (simp add: critical_problems_def regenerator_inicial_def problema_ejemplo_def
        slice_to_int_def)
  show ?thesis
    unfolding fix_critical_problems_def Let_def c
    by (simp add: mejor_candidato_ejemplo py_index_def problema_ejemplo_def)
qed

text \<open>
  One problem on the second of two segments, fixed at the first attempt: the second
  segment is replaced by the candidate \<open>[3]\<close> and the first is unchanged.
\<close>

theorem fix_critical_problems_frame_witness:
  "fix_critical_problems regenerator_inicial regen_ejemplo [problema_ejemplo] [[1], [2]]
     [ustr ''a.'', ustr ''b.''] 0.3
   = Inr ([[1], [3]],
          \<lparr> attempted = 1, successful = 1, failed = 0,
            fix_list = [(1, Inverted_prosodic_arc, 0.9)] \<rparr>)
   \<and> length [[1], [3::real]] = length [[1], [2::real]]"
proof -
  from fix_critical_problems_frame [OF fix_critical_problems_ejemplo]
  have "length [[1], [3::real]] = length [[1], [2::real]]" by blast
  with fix_critical_problems_ejemplo show ?thesis by blast
qed

section \<open>The retry loop and the parameter overrides\<close>

lemma parametros_frase_restore:
  "(parametros_frase isword g text)
     \<lparr> nfe_steps := nfe_steps g, sway_sampling_coef := sway_sampling_coef g,
       speed := speed g \<rparr> = g"
  by (simp add: parametros_frase_def Let_def)

lemma fallback_parametros_frase:
  "fallback_after_attempts (parametros_frase isword g text) = fallback_after_attempts g"
  by (simp add: parametros_frase_def Let_def)

lemma generate_eq:
  "generate_single_phrase_with_validation lower isword librosa_rms motor g text
     = map_option (\<lambda>result. (result, g))
         (intentar (motor (parametros_frase isword g text) (clean_text_simple text))
            (puntuacion lower isword librosa_rms g text) (fallback_after_attempts g) 1 None)"
  unfolding generate_single_phrase_with_validation_def Let_def parametros_frase_restore
    fallback_parametros_frase
  by (simp split: option.splits)

text \<open>
  Claim C9. Whenever \<open>generate_single_phrase_with_validation\<close> returns or raises, the
  attributes \<open>nfe_steps\<close>, \<open>sway_sampling_coef\<close> and \<open>speed\<close> of the generator have
  their values at entry, and so has every other attribute: the object is as it was.
\<close>

theorem generate_restores_parameters:
  assumes "generate_single_phrase_with_validation lower isword librosa_rms motor g text
             = Some (result, g')"
  shows "nfe_steps g' = nfe_steps g \<and> sway_sampling_coef g' = sway_sampling_coef g
       \<and> speed g' = speed g \<and> g' = g"
  using assms unfolding generate_eq by auto

lemma intentar_interrumpido:
  "intentar (\<lambda>attempt. Interrupcion) calidad fallback attempt best = Some (Inl KeyboardInterrupt)"
  by (subst intentar.simps) simp

lemma generate_interrumpido:
  "generate_single_phrase_with_validation lower isword librosa_rms motor_interrumpido g text
     = Some (Inl KeyboardInterrupt, g)"
  unfolding generate_eq motor_interrumpido_def intentar_interrumpido by simp

lemma clean_text_simple_hola: "clean_text_simple (ustr ''Hola.'') = ustr ''Hola.''"
  by (simp add: clean_text_simple_def re_sub_def seq_matcher_def puntos_finales_matcher_def
      signos_finales_matcher_def at_end_def strip_def lstrip_def rstrip_def isspace_def
      one_of_def ustr_def)

lemma parametros_frase_hola:
  "parametros_frase ascii_isword generador_inicial (ustr ''Hola.'')
     = generador_inicial\<lparr> nfe_steps := 28, sway_sampling_coef := - 0.3, speed := 0.95 \<rparr>"
  unfolding parametros_frase_def Let_def clean_text_simple_hola
  by (simp add: ustr_def)

text \<open>
  The sentence \<open>Hola.\<close> is short: it is generated with 28 steps and a sway coefficient
  of -0.3 instead of 64 and -1.0. When the first attempt is interrupted, the function
  raises \<open>KeyboardInterrupt\<close> and leaves the generator with the values at entry.
\<close>

theorem generate_restores_parameters_witness:
  "generate_single_phrase_with_validation ascii_lower ascii_isword one_loud_frame
     motor_interrumpido generador_inicial (ustr ''Hola.'')
     = Some (Inl KeyboardInterrupt, generador_inicial)
   \<and> nfe_steps (parametros_frase ascii_isword generador_inicial (ustr ''Hola.'')) = 28
   \<and> nfe_steps generador_inicial = 64
   \<and> (nfe_steps generador_inicial = nfe_steps generador_inicial
      \<and> sway_sampling_coef generador_inicial = sway_sampling_coef generador_inicial
      \<and> speed generador_inicial = speed generador_inicial
      \<and> generador_inicial = generador_inicial)"
proof -
  have e: "generate_single_phrase_with_validation ascii_lower ascii_isword one_loud_frame
             motor_interrumpido generador_inicial (ustr ''Hola.'')
           = Some (Inl KeyboardInterrupt, generador_inicial)"
    by (rule generate_interrumpido)
  have p: "nfe_steps (parametros_frase ascii_isword generador_inicial (ustr ''Hola.'')) = 28"
    by (simp add: parametros_frase_hola)
  have q: "nfe_steps generador_inicial = 64"
    by (simp add: generador_inicial_def)
  have r: "nfe_steps generador_inicial = nfe_steps generador_inicial
      \<and> sway_sampling_coef generador_inicial = sway_sampling_coef generador_inicial
      \<and> speed generador_inicial = speed generador_inicial
      \<and> generador_inicial = generador_inicial"
    by (rule generate_restores_parameters [OF e])
  show ?thesis
    by (rule conjI [OF e conjI [OF p conjI [OF q r]]])
qed

subsection \<open>The loop at the ceiling\<close>





text \<open>There is a candidate at an attempt exactly when \<open>best_candidate\<close> is not \<open>None\<close>.\<close>

lemma hay_candidato_Suc:
  "hay_candidato m (Suc (Suc a)) \<longleftrightarrow> hay_candidato m (Suc a) \<or> invalido (m (Suc a))"
  by (auto simp: hay_candidato_def)

lemma hay_candidato_mejor_hasta:
  "hay_candidato m (Suc a) \<longleftrightarrow> mejor_hasta calidad m a \<noteq> None"
proof (induction a)
  case 0
  show ?case by (simp add: hay_candidato_def)
next
  case (Suc a)
  show ?case unfolding hay_candidato_Suc Suc by simp
qed







text \<open>
  When every attempt from some attempt on is retried, the loop never returns.
\<close>

lemma intentar_nunca:
  assumes "\<forall>j. Suc a \<le> j \<longrightarrow> reintenta N m j"
  shows "intentar m calidad (Some (int N)) (Suc a) (mejor_hasta calidad m a) = None"
proof -
  have "\<forall>a. m' = m \<and> c' = calidad \<and> fb' = Some (int N) \<and> n0 = Suc a
            \<and> b' = mejor_hasta calidad m a \<and> (\<forall>j. Suc a \<le> j \<longrightarrow> reintenta N m j)
          \<longrightarrow> False"
    if h: "intentar m' c' fb' n0 b' = Some y" for m' c' fb' n0 b' y
  proof (rule intentar.raw_induct
          [where P = "\<lambda>m' c' fb' n0 b' y.
             \<forall>a. m' = m \<and> c' = calidad \<and> fb' = Some (int N) \<and> n0 = Suc a
                  \<and> b' = mejor_hasta calidad m a \<and> (\<forall>j. Suc a \<le> j \<longrightarrow> reintenta N m j)
                \<longrightarrow> False", OF _ h])
    fix f :: "(nat \<Rightarrow> evento) \<Rightarrow> (audio \<Rightarrow> real) \<Rightarrow> int option \<Rightarrow> nat
                \<Rightarrow> (audio \<times> real) option \<Rightarrow> (py_error + audio) option"
      and m' c' fb' a' b' y'
    assume ih: "\<And>m' c' fb' n0 b' y. f m' c' fb' n0 b' = Some y \<Longrightarrow>
                  \<forall>a. m' = m \<and> c' = calidad \<and> fb' = Some (int N) \<and> n0 = Suc a
                      \<and> b' = mejor_hasta calidad m a
                      \<and> (\<forall>j. Suc a \<le> j \<longrightarrow> reintenta N m j)
                    \<longrightarrow> False"
      and body: "(case m' a' of
          Devuelve wav is_valid \<Rightarrow>
            if wav = [] then f m' c' fb' (a' + 1) b'
            else if is_valid then Some (Inr (normalizar wav))
            else (let best = mejor c' b' wav
                  in if fallback_reached fb' a' then Some (Inr (normalizar (fst best)))
                     else f m' c' fb' (a' + 1) (Some best))
        | Interrupcion \<Rightarrow> Some (Inl KeyboardInterrupt)
        | Excepcion \<Rightarrow>
            (case b' of
               Some (b, s) \<Rightarrow>
                 if a' \<ge> 10 then Some (Inr (normalizar b)) else f m' c' fb' (a' + 1) b'
             | None \<Rightarrow> f m' c' fb' (a' + 1) b')
        | Error_motor r \<Rightarrow>
            (case r of Some wav \<Rightarrow> Some (Inr wav) | None \<Rightarrow> Some (Inl SystemExit)))
        = Some y'"
    show "\<forall>a. m' = m \<and> c' = calidad \<and> fb' = Some (int N) \<and> a' = Suc a
              \<and> b' = mejor_hasta calidad m a \<and> (\<forall>j. Suc a \<le> j \<longrightarrow> reintenta N m j)
            \<longrightarrow> False"
    proof (intro allI impI)
      fix a
      assume pre: "m' = m \<and> c' = calidad \<and> fb' = Some (int N) \<and> a' = Suc a
              \<and> b' = mejor_hasta calidad m a \<and> (\<forall>j. Suc a \<le> j \<longrightarrow> reintenta N m j)"
      then have eq: "m' = m" "c' = calidad" "fb' = Some (int N)" "a' = Suc a"
        "b' = mejor_hasta calidad m a"
        and all: "\<forall>j. Suc a \<le> j \<longrightarrow> reintenta N m j"
        by simp_all
      from all have re: "reintenta N m (Suc a)" by simp
      from all have all': "\<forall>j. Suc (Suc a) \<le> j \<longrightarrow> reintenta N m j" by simp
      have "f m calidad (Some (int N)) (Suc (Suc a)) (mejor_hasta calidad m (Suc a)) = Some y'"
      proof (cases "m (Suc a)")
        case (Devuelve wav is_valid)
        show ?thesis
        proof (cases "wav = []")
          case True
          with body Devuelve show ?thesis unfolding eq by simp
        next
          case False
          with re Devuelve have v: "\<not> is_valid" and lt: "Suc a < N"
            by (simp_all add: reintenta_def)
          have fr: "\<not> fallback_reached (Some (int N)) (Suc a)"
            using lt by (simp add: fallback_reached_def)
          from body show ?thesis unfolding eq by (simp add: Devuelve False v fr)
        qed
      next
        case Interrupcion
        with re show ?thesis by (simp add: reintenta_def)
      next
        case Excepcion
        with re have n: "\<not> (10 \<le> Suc a \<and> mejor_hasta calidad m a \<noteq> None)"
          using hay_candidato_mejor_hasta [of m a calidad] by (simp add: reintenta_def)
        show ?thesis
        proof (cases "mejor_hasta calidad m a")
          case None
          with body show ?thesis unfolding eq by (simp add: Excepcion)
        next
          case (Some bs)
          obtain b s where bs: "bs = (b, s)" by (cases bs)
          from n Some have "\<not> 10 \<le> Suc a" by simp
          with body show ?thesis unfolding eq by (simp add: Excepcion Some bs)
        qed
      next
        case (Error_motor r)
        with re show ?thesis by (simp add: reintenta_def)
      qed
      from ih [OF this] all' show False by blast
    qed
  qed
  then show ?thesis
    using assms
    by (cases "intentar m calidad (Some (int N)) (Suc a) (mejor_hasta calidad m a)") blast+
qed

text \<open>
  With a ceiling configured, the function never returns when every attempt is retried,
  as every attempt is when none gives a valid audio or a candidate to return and none is
  interrupted.
\<close>

lemma generate_nunca:
  assumes "fallback_after_attempts g = Some (int N)"
    and "\<forall>j. 1 \<le> j \<longrightarrow>
           reintenta N (motor (parametros_frase isword g frase) (clean_text_simple frase)) j"
  shows "generate_single_phrase_with_validation lower isword librosa_rms motor g frase = None"
proof -
  have "intentar (motor (parametros_frase isword g frase) (clean_text_simple frase))
          (puntuacion lower isword librosa_rms g frase) (Some (int N)) (Suc 0)
          (mejor_hasta (puntuacion lower isword librosa_rms g frase)
             (motor (parametros_frase isword g frase) (clean_text_simple frase)) 0) = None"
    using assms(2) by (intro intentar_nunca) simp
  then show ?thesis
    unfolding generate_eq assms(1) by simp
qed



end
